theory Spec2Isabelle
  imports Complex_Main "HOL-Library.AList" "HOL-Library.Log_Nat"
begin

section \<open>Vector clocks (utils/vectorClockUtils.js)\<close>

text \<open>
  A vector clock is the JSON object the engine obtains from \<^verbatim>\<open>transaction.vectorClock.toJSON()\<close>:
  actor ids with their counters, in insertion order. An actor without an entry counts as 0.
\<close>

type_synonym clock = "(string \<times> nat) list"

definition clock_get :: "clock \<Rightarrow> string \<Rightarrow> nat" where
  "clock_get c a = (case map_of c a of None \<Rightarrow> 0 | Some n \<Rightarrow> n)"

definition actors :: "clock \<Rightarrow> clock \<Rightarrow> string list" where
  "actors a b = remdups (map fst a @ map fst b)"

text \<open>
  Modelled from the spec: \<^verbatim>\<open>vectorClockUtils.compare\<close> is required by
  services/consensusEngine.js but its file is not among the sources. Section 4.1 of the
  specification: the result is \<^verbatim>\<open>less\<close> iff no counter of the first clock is larger and at
  least one is strictly smaller; \<^verbatim>\<open>greater\<close> is the symmetric case; \<^verbatim>\<open>equal\<close> iff all
  counters match; otherwise \<^verbatim>\<open>concurrent\<close>; counters are compared over the union of the
  actor ids, a missing actor counting as 0.
\<close>

definition vc_compare :: "clock \<Rightarrow> clock \<Rightarrow> string" where
  "vc_compare a b =
     (let ks = actors a b;
          below = list_ex (\<lambda>k. clock_get a k < clock_get b k) ks;
          above = list_ex (\<lambda>k. clock_get b k < clock_get a k) ks
      in if above \<and> below then ''concurrent''
         else if above then ''greater''
         else if below then ''less''
         else ''equal'')"

text \<open>
  Modelled from the spec: \<^verbatim>\<open>vectorClockUtils.merge\<close> (file not among the sources) is the
  pointwise maximum per actor over the union of the actor sets.
\<close>

definition vc_merge :: "clock \<Rightarrow> clock \<Rightarrow> clock" where
  "vc_merge a b = map (\<lambda>k. (k, max (clock_get a k) (clock_get b k))) (actors a b)"

text \<open>
  Modelled from the spec: \<^verbatim>\<open>vectorClockUtils.increment\<close> (file not among the sources)
  returns a copy with the named actor's counter incremented by one, an unknown actor
  starting at 0.
\<close>

definition vc_increment :: "clock \<Rightarrow> string \<Rightarrow> clock" where
  "vc_increment c actor = AList.update actor (clock_get c actor + 1) c"


section \<open>Records, conflict entries and the store\<close>

datatype jsval = JNum rat | JStr string | JBool bool | JNull

text \<open>The financial fields of a write (type, amount, category, currency, ...), by name.\<close>

type_synonym payload = "string \<rightharpoonup> jsval"

text \<open>
  \<^verbatim>\<open>syncMetadata\<close> of a transaction. \<^verbatim>\<open>checksum\<close> and \<^verbatim>\<open>conflictsCount\<close> may be absent
  (\<^verbatim>\<open>undefined\<close>), which is \<open>None\<close>.
\<close>

record sync_metadata =
  checksum :: "string option"
  syncStatus :: string
  conflictsCount :: "int option"

record transaction =
  tx_id :: string
  tx_user :: string
  tx_fields :: payload
  vectorClock :: clock
  syncMetadata :: sync_metadata

text \<open>
  A document of the SyncConflict collection, with the fields \<^verbatim>\<open>reconcile\<close> passes to
  \<^verbatim>\<open>SyncConflict.create\<close> and the three \<^verbatim>\<open>resolveConflict\<close> writes.
\<close>

record sync_conflict =
  transactionId :: string
  userId :: string
  serverState :: transaction
  clientState :: payload
  vectorClocks_server :: clock
  vectorClocks_client :: clock
  sc_checksum :: string
  status :: string
  resolutionStrategy :: "string option"
  resolvedAt :: "int option"

text \<open>
  The persistent state the engine works on: the transactions by id, and the SyncConflict
  collection in insertion order; a conflict's id is its position in the collection.
\<close>

record store =
  transactions :: "string \<rightharpoonup> transaction"
  conflicts :: "sync_conflict list"

text \<open>
  Modelled from the spec: the schema of models/SyncConflict.js is not among the sources.
  Section 3 of the specification gives a conflict entry the resolution status open or
  resolved, a chosen strategy and a resolution timestamp; a newly created entry is open
  and has neither strategy nor timestamp.
\<close>

definition SyncConflict_create ::
  "store \<Rightarrow> string \<Rightarrow> string \<Rightarrow> transaction \<Rightarrow> payload \<Rightarrow> clock \<Rightarrow> clock \<Rightarrow> string \<Rightarrow> store" where
  "SyncConflict_create st tid uid server client sclock cclock csum =
     st\<lparr>conflicts := conflicts st @
       [\<lparr>transactionId = tid, userId = uid, serverState = server, clientState = client,
         vectorClocks_server = sclock, vectorClocks_client = cclock, sc_checksum = csum,
         status = ''open'', resolutionStrategy = None, resolvedAt = None\<rparr>]\<rparr>"


section \<open>ConsensusEngine.reconcile (services/consensusEngine.js)\<close>

text \<open>
  The \<^verbatim>\<open>data\<close> of an \<^verbatim>\<open>update\<close> result is the client update spread into a new object
  whose keys \<^verbatim>\<open>vectorClock\<close> and \<^verbatim>\<open>syncMetadata.checksum\<close> are then set; the \<^verbatim>\<open>data\<close> of a
  \<^verbatim>\<open>conflict\<close> result has exactly the two keys \<^verbatim>\<open>syncMetadata.syncStatus\<close> and
  \<^verbatim>\<open>syncMetadata.conflictsCount\<close>.
\<close>

record update_data =
  u_fields :: payload
  u_vectorClock :: clock
  u_checksum :: string

record conflict_data =
  c_syncStatus :: string
  c_conflictsCount :: int

datatype reconcile_result =
    Ignore string
  | Update update_data
  | Conflict conflict_data

text \<open>
  \<^verbatim>\<open>hashGenerator.generateTransactionHash\<close> (utils/hashGenerator.js) is not among the
  sources; it is the first parameter. The device id is only logged. The result pairs the
  returned object with the store after the call.

  \<open>reconcileRel\<close> is the body of \<^verbatim>\<open>reconcile\<close> after its first step, for a given value of
  the local \<^verbatim>\<open>relation\<close>: the four tests of that value against the literals \<^verbatim>\<open>'smaller'\<close>,
  \<^verbatim>\<open>'greater'\<close>, \<^verbatim>\<open>'concurrent'\<close> and \<^verbatim>\<open>'equal'\<close>, and the fallback. \<open>reconcile\<close> is the whole
  function: it computes the relation with \<^verbatim>\<open>vectorClockUtils.compare\<close> and goes on with
  that body.
\<close>

definition reconcileRel ::
  "string \<Rightarrow> (payload \<Rightarrow> string) \<Rightarrow> store \<Rightarrow> transaction \<Rightarrow> payload \<Rightarrow> clock \<Rightarrow> string
     \<Rightarrow> reconcile_result \<times> store" where
  "reconcileRel relation generateTransactionHash st transaction clientUpdate clientClock deviceId =
     (let serverClock = vectorClock transaction
      in if relation = ''smaller'' then (Ignore ''stale_update'', st)
         else if relation = ''greater'' then
           (let mergedClock = vc_increment (vc_merge serverClock clientClock) ''server''
            in (Update \<lparr>u_fields = clientUpdate, u_vectorClock = mergedClock,
                         u_checksum = generateTransactionHash clientUpdate\<rparr>, st))
         else if relation = ''concurrent'' \<or> relation = ''equal'' then
           (let clientHash = generateTransactionHash clientUpdate
            in if relation = ''equal'' \<and> checksum (syncMetadata transaction) = Some clientHash
               then (Ignore ''redundant_update'', st)
               else (Conflict \<lparr>c_syncStatus = ''conflict'',
                       c_conflictsCount =
                         (case conflictsCount (syncMetadata transaction) of
                            None \<Rightarrow> 0 | Some n \<Rightarrow> n) + 1\<rparr>,
                     SyncConflict_create st (tx_id transaction) (tx_user transaction)
                       transaction clientUpdate serverClock clientClock clientHash))
         else (Ignore ''unknown_relation'', st))"

definition reconcile ::
  "(payload \<Rightarrow> string) \<Rightarrow> store \<Rightarrow> transaction \<Rightarrow> payload \<Rightarrow> clock \<Rightarrow> string
     \<Rightarrow> reconcile_result \<times> store" where
  "reconcile generateTransactionHash st transaction clientUpdate clientClock deviceId =
     (let serverClock = vectorClock transaction;
          relation = vc_compare clientClock serverClock
      in reconcileRel relation generateTransactionHash st transaction clientUpdate clientClock
           deviceId)"


section \<open>ConsensusEngine.resolveConflict (services/consensusEngine.js)\<close>

text \<open>
  The three ways the function throws: \<^verbatim>\<open>Conflict record not found\<close>, \<^verbatim>\<open>Invalid resolution
  strategy\<close>, and the \<^verbatim>\<open>TypeError\<close> of \<^verbatim>\<open>tx.set\<close> when the populated transaction is null.
\<close>

datatype error = ConflictNotFound | InvalidStrategy | TypeError

text \<open>
  \<^verbatim>\<open>finalData\<close>: the client state is a set of financial fields; the server state is a whole
  stored document (\<^verbatim>\<open>transaction.toObject()\<close>), kept in \<open>fd_document\<close>, and for
  \<^verbatim>\<open>merge\<close> its fields are overlaid with the caller's overrides.
\<close>

record final_data =
  fd_fields :: payload
  fd_document :: "transaction option"

text \<open>
  \<^verbatim>\<open>tx.set(finalData)\<close> assigns every path present in the object and leaves the others.
\<close>

definition tx_set :: "transaction \<Rightarrow> final_data \<Rightarrow> transaction" where
  "tx_set tx fd =
     (case fd_document fd of
        None \<Rightarrow> tx\<lparr>tx_fields := tx_fields tx ++ fd_fields fd\<rparr>
      | Some doc \<Rightarrow>
          tx\<lparr>tx_id := tx_id doc, tx_user := tx_user doc,
             tx_fields := tx_fields tx ++ fd_fields fd,
             vectorClock := vectorClock doc,
             syncMetadata :=
               \<lparr>checksum = (case checksum (syncMetadata doc) of
                               None \<Rightarrow> checksum (syncMetadata tx) | Some c \<Rightarrow> Some c),
                syncStatus = syncStatus (syncMetadata doc),
                conflictsCount = (case conflictsCount (syncMetadata doc) of
                               None \<Rightarrow> conflictsCount (syncMetadata tx) | Some n \<Rightarrow> Some n)\<rparr>\<rparr>)"

text \<open>\<^verbatim>\<open>SyncConflict.findById\<close>: a missing id yields \<^verbatim>\<open>null\<close>.\<close>

definition findById :: "store \<Rightarrow> nat \<Rightarrow> sync_conflict option" where
  "findById st conflictId =
     (if conflictId < length (conflicts st) then Some (conflicts st ! conflictId) else None)"

text \<open>
  The last parameter is the value of \<^verbatim>\<open>new Date()\<close> at the call. The checks come in the
  order of the source: the conflict lookup, the strategy switch, then the first use of the
  populated transaction. \<^verbatim>\<open>Math.max(0, conflictsCount - 1)\<close> of an absent counter is not a
  number and stays \<open>None\<close>. Nothing reads \<^verbatim>\<open>conflict.status\<close>.
\<close>

definition resolveConflict ::
  "store \<Rightarrow> nat \<Rightarrow> string \<Rightarrow> payload \<Rightarrow> int \<Rightarrow> error + (store \<times> transaction)" where
  "resolveConflict st conflictId strategy resolvedData now =
     (case findById st conflictId of
        None \<Rightarrow> Inl ConflictNotFound
      | Some conflict \<Rightarrow>
          (case (if strategy = ''client_wins''
                   then Some \<lparr>fd_fields = clientState conflict, fd_document = None\<rparr>
                 else if strategy = ''server_wins''
                   then Some \<lparr>fd_fields = tx_fields (serverState conflict),
                              fd_document = Some (serverState conflict)\<rparr>
                 else if strategy = ''merge''
                   then Some \<lparr>fd_fields = tx_fields (serverState conflict) ++ resolvedData,
                              fd_document = Some (serverState conflict)\<rparr>
                 else None) of
             None \<Rightarrow> Inl InvalidStrategy
           | Some finalData \<Rightarrow>
               (case transactions st (transactionId conflict) of
                  None \<Rightarrow> Inl TypeError
                | Some tx0 \<Rightarrow>
                    (let tx1 = tx_set tx0 finalData;
                         tx2 = tx1\<lparr>syncMetadata := (syncMetadata tx1)
                                 \<lparr>syncStatus := ''synced'',
                                  conflictsCount :=
                                    map_option (\<lambda>n. max 0 (n - 1))
                                      (conflictsCount (syncMetadata tx1))\<rparr>\<rparr>;
                         tx3 = tx2\<lparr>vectorClock :=
                                 AList.update ''server'' (clock_get (vectorClock tx2) ''server'' + 1)
                                   (vectorClock tx2)\<rparr>;
                         conflict' = conflict\<lparr>status := ''resolved'',
                                       resolutionStrategy := Some strategy,
                                       resolvedAt := Some now\<rparr>
                     in Inr (st\<lparr>transactions := (transactions st)(tx_id tx3 \<mapsto> tx3),
                                conflicts := (conflicts st)[conflictId := conflict']\<rparr>, tx3)))))"


section \<open>JavaScript numbers\<close>

text \<open>
  Every amount and counter of the replay engine is a JavaScript number, an IEEE 754
  binary64 value, and every \<^verbatim>\<open>+\<close>, \<^verbatim>\<open>-\<close>, \<^verbatim>\<open>*\<close> and \<^verbatim>\<open>/\<close> on them rounds its exact result to
  the nearest such value, ties to the even significand. A finite number is modelled by the
  rational it denotes, and an operation by the exact operation followed by \<open>roundDouble\<close>,
  the rounding to 53 significant bits. The exponent range is not bounded: overflow to
  infinity, subnormal numbers, the sign of zero and \<^verbatim>\<open>NaN\<close> are outside the model.
  Negation and \<^verbatim>\<open>Math.abs\<close> are exact.

  \<open>roundEven\<close> rounds to the nearest integer, ties to even; \<open>binade x\<close> is the exponent
  \<open>e\<close> with \<open>2 ^ e \<le> x < 2 ^ (e + 1)\<close> of a positive \<open>x\<close>; \<open>ulp x\<close> is the distance of
  neighbouring doubles there.
\<close>

definition roundEven :: "rat \<Rightarrow> int" where
  "roundEven q =
     (let f = \<lfloor>q\<rfloor>; r = q - of_int f
      in if r < 1 / 2 then f else if 1 / 2 < r then f + 1 else if even f then f else f + 1)"

definition binade :: "rat \<Rightarrow> int" where
  "binade x = (if 1 \<le> x then bitlen \<lfloor>x\<rfloor> - 1 else - bitlen (\<lceil>1 / x\<rceil> - 1))"

definition ulp :: "rat \<Rightarrow> rat" where
  "ulp x = 2 powi (binade x - 52)"

definition roundDouble :: "rat \<Rightarrow> rat" where
  "roundDouble x =
     (if x = 0 then 0
      else (let u = 2 powi (binade \<bar>x\<bar> - 52)
            in sgn x * (of_int (roundEven (\<bar>x\<bar> / u)) * u)))"

definition isDouble :: "rat \<Rightarrow> bool" where
  "isDouble x \<longleftrightarrow> roundDouble x = x"

definition dadd :: "rat \<Rightarrow> rat \<Rightarrow> rat" where
  "dadd x y = roundDouble (x + y)"

definition dsub :: "rat \<Rightarrow> rat \<Rightarrow> rat" where
  "dsub x y = roundDouble (x - y)"

definition dmul :: "rat \<Rightarrow> rat \<Rightarrow> rat" where
  "dmul x y = roundDouble (x * y)"

definition ddiv :: "rat \<Rightarrow> rat \<Rightarrow> rat" where
  "ddiv x y = roundDouble (x / y)"


section \<open>State deltas (the StateDelta model and EnhancedAuditLogger)\<close>

text \<open>
  The \<^verbatim>\<open>operation\<close> and \<^verbatim>\<open>entityType\<close> enumerations of the StateDelta schema.
\<close>

datatype operation = OpCreate | OpUpdate | OpDelete | OpRestore

datatype entity_type = Expense | Income | Transfer | Budget | Goal | Account | UserSettings

text \<open>
  \<^verbatim>\<open>beforeState\<close> and \<^verbatim>\<open>afterState\<close> are schemaless objects; the record has the properties the
  modelled code reads from them. A property the code guards with \<^verbatim>\<open>|| 0\<close> or \<^verbatim>\<open>?.\<close> is
  optional. A budget or goal id is an ObjectId, an object: it is the pair of its identity
  (which \<^verbatim>\<open>!==\<close> compares) and its value.
\<close>

type_synonym object_id = "nat \<times> string"

record entity_state =
  es_type :: string
  es_amount :: rat
  es_category :: string
  es_limit :: rat
  es_spent :: "rat option"
  es_targetAmount :: rat
  es_currentAmount :: "rat option"
  es_budgetId :: "object_id option"
  es_goalId :: "object_id option"

record changed_field =
  field :: string
  oldValue :: jsval
  newValue :: jsval

record financial_impact =
  balanceChange :: rat
  affectedCategories :: "string list"
  affectedBudgets :: "string list"
  affectedGoals :: "string list"

text \<open>
  \<open>delta_body\<close> has the fields that \<^verbatim>\<open>getReverseDelta\<close> returns and \<^verbatim>\<open>applyDelta\<close> reads;
  a stored \<open>state_delta\<close> adds the owner and the timestamp. \<^verbatim>\<open>financialImpact\<close> is a nested
  schema path with defaults, so it is always present.
\<close>

record delta_body =
  entityType :: entity_type
  entityId :: string
  operation :: operation
  beforeState :: "entity_state option"
  afterState :: "entity_state option"
  changedFields :: "changed_field list"
  financialImpact :: financial_impact

record state_delta = delta_body +
  d_user :: string
  d_timestamp :: int

text \<open>\<^verbatim>\<open>stateDeltaSchema.methods.getReverseDelta\<close>.\<close>

definition getReverseDelta :: "'a delta_body_scheme \<Rightarrow> delta_body" where
  "getReverseDelta this =
     \<lparr>entityType = entityType this,
      entityId = entityId this,
      operation = (if operation this = OpCreate then OpDelete
                   else if operation this = OpDelete then OpCreate else OpUpdate),
      beforeState = afterState this,
      afterState = beforeState this,
      changedFields =
        map (\<lambda>f. \<lparr>field = field f, oldValue = newValue f, newValue = oldValue f\<rparr>)
          (changedFields this),
      financialImpact =
        \<lparr>balanceChange = - balanceChange (financialImpact this),
         affectedCategories = affectedCategories (financialImpact this),
         affectedBudgets = affectedBudgets (financialImpact this),
         affectedGoals = affectedGoals (financialImpact this)\<rparr>\<rparr>"

section \<open>The reconstructed financial state (the AuditSnapshot model)\<close>

record category_entry =
  ce_category :: string
  ce_amount :: rat
  ce_transactionCount :: rat

record budget_entry =
  budgetId :: string
  limit :: rat
  spent :: rat
  remaining :: rat

text \<open>\<open>progress\<close> is \<open>None\<close> where the division by \<^verbatim>\<open>targetAmount\<close> has no finite result.\<close>

record goal_entry =
  goalId :: string
  targetAmount :: rat
  currentAmount :: rat
  progress :: "rat option"

record account_entry =
  accountId :: string
  balance :: rat
  acc_currency :: string

record expense_doc =
  ex_id :: string
  ex_user :: string
  ex_date :: int
  ex_fields :: payload

text \<open>
  The numeric fields default to 0 in the schema and are 0 in a fresh state, so the guards
  \<^verbatim>\<open>(state.totalBalance || 0)\<close> are the identity. \<open>state_transactions\<close> is the
  \<^verbatim>\<open>transactions\<close> property that \<^verbatim>\<open>replayToDate\<close> adds on request.
\<close>

record fin_state =
  totalBalance :: rat
  totalIncome :: rat
  totalExpenses :: rat
  categoryBreakdown :: "category_entry list"
  budgets :: "budget_entry list"
  goals :: "goal_entry list"
  accounts :: "account_entry list"
  transactionCount :: rat
  currency :: string
  state_transactions :: "expense_doc list option"

section \<open>ReplayEngine (services/replayEngine.js)\<close>

text \<open>
  \<^verbatim>\<open>Array.prototype.findIndex\<close> (with \<open>None\<close> for -1), \<^verbatim>\<open>splice(i, 1)\<close>, and the body of
  the \<^verbatim>\<open>forEach\<close> over the affected categories.
\<close>

fun findIndex :: "('a \<Rightarrow> bool) \<Rightarrow> 'a list \<Rightarrow> nat option" where
  "findIndex p [] = None"
| "findIndex p (x # xs) = (if p x then Some 0 else map_option Suc (findIndex p xs))"

definition splice1 :: "nat \<Rightarrow> 'a list \<Rightarrow> 'a list" where
  "splice1 i xs = take i xs @ drop (Suc i) xs"

definition applyCategory :: "operation \<Rightarrow> rat \<Rightarrow> category_entry list \<Rightarrow> string \<Rightarrow> category_entry list" where
  "applyCategory oper change breakdown cat =
     (case findIndex (\<lambda>c. ce_category c = cat) breakdown of
        Some i \<Rightarrow>
          breakdown[i := (breakdown ! i)
            \<lparr>ce_amount := dadd (ce_amount (breakdown ! i)) change,
             ce_transactionCount := dadd (ce_transactionCount (breakdown ! i))
               (if oper = OpCreate then 1 else if oper = OpDelete then - 1 else 0)\<rparr>]
      | None \<Rightarrow>
          if oper = OpCreate
          then breakdown @ [\<lparr>ce_category = cat, ce_amount = change, ce_transactionCount = 1\<rparr>]
          else breakdown)"

definition budgetOf :: "string \<Rightarrow> entity_state \<Rightarrow> budget_entry" where
  "budgetOf eid a =
     \<lparr>budgetId = eid, limit = es_limit a,
      spent = (case es_spent a of None \<Rightarrow> 0 | Some x \<Rightarrow> x),
      remaining = dsub (es_limit a) (case es_spent a of None \<Rightarrow> 0 | Some x \<Rightarrow> x)\<rparr>"

definition updateBudgetInState :: "fin_state \<Rightarrow> 'a delta_body_scheme \<Rightarrow> fin_state" where
  "updateBudgetInState state delta =
     (let budgetIndex = findIndex (\<lambda>b. budgetId b = entityId delta) (budgets state)
      in if operation delta = OpCreate \<and> afterState delta \<noteq> None
           then state\<lparr>budgets := budgets state @ [budgetOf (entityId delta) (the (afterState delta))]\<rparr>
         else if operation delta = OpUpdate \<and> budgetIndex \<noteq> None \<and> afterState delta \<noteq> None
           then state\<lparr>budgets := (budgets state)
                  [the budgetIndex := budgetOf (entityId delta) (the (afterState delta))]\<rparr>
         else if operation delta = OpDelete \<and> budgetIndex \<noteq> None
           then state\<lparr>budgets := splice1 (the budgetIndex) (budgets state)\<rparr>
         else state)"

definition goalOf :: "string \<Rightarrow> entity_state \<Rightarrow> goal_entry" where
  "goalOf eid a =
     \<lparr>goalId = eid, targetAmount = es_targetAmount a,
      currentAmount = (case es_currentAmount a of None \<Rightarrow> 0 | Some x \<Rightarrow> x),
      progress =
        (if es_targetAmount a = 0 then None
         else Some (dmul (ddiv (case es_currentAmount a of None \<Rightarrow> 0 | Some x \<Rightarrow> x)
                             (es_targetAmount a)) 100))\<rparr>"

definition updateGoalInState :: "fin_state \<Rightarrow> 'a delta_body_scheme \<Rightarrow> fin_state" where
  "updateGoalInState state delta =
     (let goalIndex = findIndex (\<lambda>g. goalId g = entityId delta) (goals state)
      in if operation delta = OpCreate \<and> afterState delta \<noteq> None
           then state\<lparr>goals := goals state @ [goalOf (entityId delta) (the (afterState delta))]\<rparr>
         else if operation delta = OpUpdate \<and> goalIndex \<noteq> None \<and> afterState delta \<noteq> None
           then state\<lparr>goals := (goals state)
                  [the goalIndex := goalOf (entityId delta) (the (afterState delta))]\<rparr>
         else if operation delta = OpDelete \<and> goalIndex \<noteq> None
           then state\<lparr>goals := splice1 (the goalIndex) (goals state)\<rparr>
         else state)"

text \<open>
  \<^verbatim>\<open>applyDelta\<close>, step by step as in the source: balance and income or expenses when the
  balance change is truthy, the category breakdown, the transaction counter, then the
  budget and goal sub-lists.
\<close>

definition applyDelta :: "fin_state \<Rightarrow> 'a delta_body_scheme \<Rightarrow> fin_state" where
  "applyDelta state delta =
     (let change = balanceChange (financialImpact delta);
          s1 = (if change \<noteq> 0
                then (let s = state\<lparr>totalBalance := dadd (totalBalance state) change\<rparr>
                      in if 0 < change
                         then s\<lparr>totalIncome := dadd (totalIncome s) change\<rparr>
                         else s\<lparr>totalExpenses := dadd (totalExpenses s) \<bar>change\<bar>\<rparr>)
                else state);
          s2 = s1\<lparr>categoryBreakdown :=
                 foldl (applyCategory (operation delta) change) (categoryBreakdown s1)
                   (affectedCategories (financialImpact delta))\<rparr>;
          s3 = (if operation delta = OpCreate
                  then s2\<lparr>transactionCount := dadd (transactionCount s2) 1\<rparr>
                else if operation delta = OpDelete
                  then s2\<lparr>transactionCount := max 0 (dsub (transactionCount s2) 1)\<rparr>
                else s2);
          s4 = (if entityType delta = Budget then updateBudgetInState s3 delta else s3);
          s5 = (if entityType delta = Goal then updateGoalInState s4 delta else s4)
      in s5)"

definition applyDeltas :: "fin_state \<Rightarrow> 'a delta_body_scheme list \<Rightarrow> fin_state" where
  "applyDeltas state ds = foldl applyDelta state ds"

text \<open>
  The three collections the replay reads. A query filters the collection and sorts the
  matches by the sort key, documents with equal keys staying in collection order.
\<close>

record audit_snapshot =
  snap_user :: string
  snapshotDate :: int
  snapshotType :: string
  snap_state :: fin_state
  stateHash :: string

record ledger =
  snapshots :: "audit_snapshot list"
  deltas :: "state_delta list"
  expenses :: "expense_doc list"

definition findClosestSnapshot :: "ledger \<Rightarrow> string \<Rightarrow> int \<Rightarrow> audit_snapshot option" where
  "findClosestSnapshot db uid targetDate =
     (case sort_key (\<lambda>s. - snapshotDate s)
             (filter (\<lambda>s. snap_user s = uid \<and> snapshotDate s \<le> targetDate) (snapshots db)) of
        [] \<Rightarrow> None
      | s # _ \<Rightarrow> Some s)"

definition deltasBetween :: "ledger \<Rightarrow> string \<Rightarrow> int \<Rightarrow> int \<Rightarrow> state_delta list" where
  "deltasBetween db uid lo hi =
     sort_key d_timestamp
       (filter (\<lambda>d. d_user d = uid \<and> lo < d_timestamp d \<and> d_timestamp d \<le> hi) (deltas db))"

definition deltasUpTo :: "ledger \<Rightarrow> string \<Rightarrow> int \<Rightarrow> state_delta list" where
  "deltasUpTo db uid hi =
     sort_key d_timestamp
       (filter (\<lambda>d. d_user d = uid \<and> d_timestamp d \<le> hi) (deltas db))"

definition zeroState :: fin_state where
  "zeroState =
     \<lparr>totalBalance = 0, totalIncome = 0, totalExpenses = 0, categoryBreakdown = [],
      budgets = [], goals = [], accounts = [], transactionCount = 0, currency = ''INR'',
      state_transactions = None\<rparr>"

definition reconstructFromScratch :: "ledger \<Rightarrow> string \<Rightarrow> int \<Rightarrow> fin_state" where
  "reconstructFromScratch db uid targetDate = applyDeltas zeroState (deltasUpTo db uid targetDate)"

definition getTransactionsUpTo :: "ledger \<Rightarrow> string \<Rightarrow> int \<Rightarrow> expense_doc list" where
  "getTransactionsUpTo db uid targetDate =
     take 100 (sort_key (\<lambda>e. - ex_date e)
       (filter (\<lambda>e. ex_user e = uid \<and> ex_date e \<le> targetDate) (expenses db)))"

text \<open>
  The result of \<^verbatim>\<open>replayToDate\<close>. \<^verbatim>\<open>metadata.reconstructionTime\<close>, the elapsed wall-clock
  time, is not part of the model. The deep copy of the snapshot state through JSON is the
  identity on the values of \<open>fin_state\<close>. The two option flags are passed explicitly.
\<close>

record replay_metadata =
  baseSnapshot :: "(int \<times> string) option"
  deltasApplied :: nat
  reconstructionMethod :: string

record replay_result =
  success :: bool
  targetDate :: int
  r_state :: fin_state
  metadata :: "replay_metadata option"

definition replayToDate :: "ledger \<Rightarrow> string \<Rightarrow> int \<Rightarrow> bool \<Rightarrow> bool \<Rightarrow> replay_result" where
  "replayToDate db uid target includeTransactions includeMetadata =
     (let base = findClosestSnapshot db uid target;
          (state, deltaCount) =
            (case base of
               Some snap \<Rightarrow>
                 (let ds = deltasBetween db uid (snapshotDate snap) target
                  in (applyDeltas (snap_state snap) ds, length ds))
             | None \<Rightarrow> (reconstructFromScratch db uid target, 0));
          state' = (if includeTransactions
                    then state\<lparr>state_transactions := Some (getTransactionsUpTo db uid target)\<rparr>
                    else state)
      in \<lparr>success = True, targetDate = target, r_state = state',
          metadata =
            (if includeMetadata
             then Some \<lparr>baseSnapshot =
                          map_option (\<lambda>s. (snapshotDate s, snapshotType s)) base,
                        deltasApplied = deltaCount,
                        reconstructionMethod =
                          (if base \<noteq> None then ''snapshot+deltas'' else ''from-scratch'')\<rparr>
             else None)\<rparr>)"

text \<open>
  \<^verbatim>\<open>AuditSnapshot.createSnapshot\<close> (its SHA-256 over the serialised state is the first
  parameter, the value of its \<^verbatim>\<open>new Date()\<close> the last), and the way every caller in the
  sources uses it (the nightly, weekly and monthly jobs of jobs/snapshotGenerator.js and
  the on-demand route): the state is the one \<^verbatim>\<open>replayToDate\<close> returns for the clock reading
  \<open>t0\<close>, and the snapshot is dated with the later clock reading \<open>t1\<close>.
\<close>

definition createSnapshot ::
  "(fin_state \<Rightarrow> string) \<Rightarrow> ledger \<Rightarrow> string \<Rightarrow> fin_state \<Rightarrow> string \<Rightarrow> int \<Rightarrow> ledger" where
  "createSnapshot sha db uid state type now =
     db\<lparr>snapshots := snapshots db @
       [\<lparr>snap_user = uid, snapshotDate = now, snapshotType = type, snap_state = state,
         stateHash = sha state\<rparr>]\<rparr>"

definition generateSnapshot ::
  "(fin_state \<Rightarrow> string) \<Rightarrow> ledger \<Rightarrow> string \<Rightarrow> string \<Rightarrow> int \<Rightarrow> int \<Rightarrow> ledger" where
  "generateSnapshot sha db uid type t0 t1 =
     createSnapshot sha db uid (r_state (replayToDate db uid t0 False False)) type t1"

text \<open>
  A snapshot is a checkpoint of a ledger when its state is what the reconstruction from
  scratch yields for its user at its date.
\<close>

definition isCheckpoint :: "ledger \<Rightarrow> audit_snapshot \<Rightarrow> bool" where
  "isCheckpoint db s \<longleftrightarrow>
     snap_state s = reconstructFromScratch db (snap_user s) (snapshotDate s)"

text \<open>
  \<^verbatim>\<open>getStateEvolution\<close>. Dates are milliseconds since the epoch. The date arithmetic of the
  platform, which works on civil dates in the time zone of the process, is a parameter:
  \<open>addDays n t\<close> is \<^verbatim>\<open>setDate(getDate() + n)\<close> and \<open>addMonth t\<close> is
  \<^verbatim>\<open>setMonth(getMonth() + 1)\<close> on the date \<open>t\<close>. With an interval other than the three named
  ones the date never advances and the loop does not return, hence the \<open>option\<close> result of
  the loop.
\<close>

record evolution_sample =
  ev_date :: int
  ev_balance :: rat
  ev_income :: rat
  ev_expenses :: rat

definition sampleAt :: "ledger \<Rightarrow> string \<Rightarrow> int \<Rightarrow> evolution_sample" where
  "sampleAt db uid t =
     (let r = replayToDate db uid t False False
      in \<lparr>ev_date = t, ev_balance = totalBalance (r_state r),
          ev_income = totalIncome (r_state r), ev_expenses = totalExpenses (r_state r)\<rparr>)"

definition advance :: "(int \<Rightarrow> int \<Rightarrow> int) \<Rightarrow> (int \<Rightarrow> int) \<Rightarrow> string \<Rightarrow> int \<Rightarrow> int" where
  "advance addDays addMonth interval t =
     (if interval = ''daily'' then addDays 1 t
      else if interval = ''weekly'' then addDays 7 t
      else if interval = ''monthly'' then addMonth t
      else t)"

partial_function (option) evolutionLoop ::
  "ledger \<Rightarrow> (int \<Rightarrow> int \<Rightarrow> int) \<Rightarrow> (int \<Rightarrow> int) \<Rightarrow> string \<Rightarrow> string \<Rightarrow> int \<Rightarrow> int
     \<Rightarrow> evolution_sample list \<Rightarrow> evolution_sample list option" where
  "evolutionLoop db addDays addMonth uid interval current endDate evolution =
     (if current \<le> endDate
      then evolutionLoop db addDays addMonth uid interval
             (advance addDays addMonth interval current) endDate
             (evolution @ [sampleAt db uid current])
      else Some evolution)"

declare evolutionLoop.simps [code]

definition getStateEvolution ::
  "ledger \<Rightarrow> (int \<Rightarrow> int \<Rightarrow> int) \<Rightarrow> (int \<Rightarrow> int) \<Rightarrow> string \<Rightarrow> int \<Rightarrow> int \<Rightarrow> string
     \<Rightarrow> evolution_sample list option" where
  "getStateEvolution db addDays addMonth uid startDate endDate interval =
     evolutionLoop db addDays addMonth uid interval startDate endDate []"

text \<open>
  Two instances of the date arithmetic. In a process whose time zone has no clock changes
  (UTC) a civil day is 24 hours. In a process whose time zone sets the clocks back by one
  hour at the instant \<open>change\<close> (as America/New_York does on 2024-11-03 at 06:00 UTC), the
  same wall-clock time \<open>n\<close> civil days later is one hour further away when the change lies
  in between. The month step is not needed for the examples.
\<close>

definition dayMs :: int where
  "dayMs = 86400000"

definition hourMs :: int where
  "hourMs = 3600000"

definition utcAddDays :: "int \<Rightarrow> int \<Rightarrow> int" where
  "utcAddDays n t = t + n * dayMs"

definition fallBackAddDays :: "int \<Rightarrow> int \<Rightarrow> int \<Rightarrow> int" where
  "fallBackAddDays change n t =
     (if t < change \<and> change \<le> t + n * dayMs then t + n * dayMs + hourMs else t + n * dayMs)"

text \<open>
  \<^verbatim>\<open>EnhancedAuditLogger.calculateFinancialImpact\<close>. The id of the after state is listed
  unless it is the very object of the before state.
\<close>

definition calculateFinancialImpact ::
  "entity_type \<Rightarrow> operation \<Rightarrow> entity_state option \<Rightarrow> entity_state option \<Rightarrow> financial_impact" where
  "calculateFinancialImpact etype oper bState aState =
     (let signed = (\<lambda>e. if es_type e = ''income'' then es_amount e else - es_amount e);
          (change, cats) =
            (if etype = Expense \<or> etype = Income \<or> etype = Transfer
             then (if oper = OpCreate \<and> aState \<noteq> None
                     then (signed (the aState), [es_category (the aState)])
                   else if oper = OpDelete \<and> bState \<noteq> None
                     then (- signed (the bState), [es_category (the bState)])
                   else if oper = OpUpdate \<and> bState \<noteq> None \<and> aState \<noteq> None
                     then (dsub (signed (the aState)) (signed (the bState)),
                           if es_category (the bState) = es_category (the aState)
                           then [es_category (the bState)]
                           else [es_category (the bState), es_category (the aState)])
                   else (0, []))
             else (0, []));
          bb = Option.bind bState es_budgetId;
          ab = Option.bind aState es_budgetId;
          bg = Option.bind bState es_goalId;
          ag = Option.bind aState es_goalId
      in \<lparr>balanceChange = change, affectedCategories = cats,
          affectedBudgets =
            (case bb of None \<Rightarrow> [] | Some b \<Rightarrow> [snd b])
              @ (case ab of None \<Rightarrow> []
                 | Some a \<Rightarrow> if map_option fst ab \<noteq> map_option fst bb then [snd a] else []),
          affectedGoals =
            (case bg of None \<Rightarrow> [] | Some b \<Rightarrow> [snd b])
              @ (case ag of None \<Rightarrow> []
                 | Some a \<Rightarrow> if map_option fst ag \<noteq> map_option fst bg then [snd a] else [])\<rparr>)"

subsection \<open>Auxiliary functions used in the proofs\<close>

text \<open>
  The change \<^verbatim>\<open>applyDelta\<close> makes to the breakdown entry of an affected category, and the
  rewriting of the first list element that satisfies a predicate.
\<close>

definition bumpEntry :: "operation \<Rightarrow> rat \<Rightarrow> category_entry \<Rightarrow> category_entry" where
  "bumpEntry oper change e =
     e\<lparr>ce_amount := dadd (ce_amount e) change,
       ce_transactionCount := dadd (ce_transactionCount e)
         (if oper = OpCreate then 1 else if oper = OpDelete then - 1 else 0)\<rparr>"

fun update_first :: "('a \<Rightarrow> bool) \<Rightarrow> ('a \<Rightarrow> 'a) \<Rightarrow> 'a list \<Rightarrow> 'a list" where
  "update_first p f [] = []"
| "update_first p f (x # xs) = (if p x then f x # xs else x # update_first p f xs)"

text \<open>The operation of a reverse delta.\<close>

definition reverseOp :: "operation \<Rightarrow> operation" where
  "reverseOp oper =
     (if oper = OpCreate then OpDelete else if oper = OpDelete then OpCreate else OpUpdate)"

text \<open>The step of a category's transaction count under an operation.\<close>

definition opStep :: "operation \<Rightarrow> rat" where
  "opStep oper = (if oper = OpCreate then 1 else if oper = OpDelete then - 1 else 0)"


section \<open>Example data\<close>

text \<open>
  A stored transaction with clock \<open>{server: 2}\<close>, a client update, a hash function that
  tells the update's amount apart, and stores with no conflict and with one resolved
  conflict.
\<close>

definition ex_hash :: "payload \<Rightarrow> string" where
  "ex_hash p = (case p ''amount'' of Some (JNum n) \<Rightarrow> (if n = 500 then ''h500'' else ''hx'') | _ \<Rightarrow> ''h0'')"

definition ex_update :: payload where
  "ex_update = [''amount'' \<mapsto> JNum 500]"

definition ex_tx :: transaction where
  "ex_tx = \<lparr>tx_id = ''t1'', tx_user = ''u1'', tx_fields = [''amount'' \<mapsto> JNum 200],
            vectorClock = [(''server'', 2)],
            syncMetadata = \<lparr>checksum = Some ''h500'', syncStatus = ''synced'', conflictsCount = Some 0\<rparr>\<rparr>"

definition ex_store :: store where
  "ex_store = \<lparr>transactions = [''t1'' \<mapsto> ex_tx], conflicts = []\<rparr>"

definition ex_resolved_store :: store where
  "ex_resolved_store =
     \<lparr>transactions = [''t1'' \<mapsto> ex_tx],
      conflicts = [\<lparr>transactionId = ''t1'', userId = ''u1'', serverState = ex_tx,
                    clientState = ex_update, vectorClocks_server = [(''server'', 2)],
                    vectorClocks_client = [(''server'', 1), (''C'', 1)], sc_checksum = ''h500'',
                    status = ''resolved'', resolutionStrategy = Some ''server_wins'',
                    resolvedAt = Some 1000\<rparr>]\<rparr>"


text \<open>
  A 500 expense on food, the deltas logged for its creation (at time 5) and its deletion
  (at time 15), a snapshot taken in between (at time 10), and the ledger holding them.
\<close>

definition ex_expense :: entity_state where
  "ex_expense =
     \<lparr>es_type = ''expense'', es_amount = 500, es_category = ''food'', es_limit = 0,
      es_spent = None, es_targetAmount = 0, es_currentAmount = None, es_budgetId = None,
      es_goalId = None\<rparr>"

definition ex_create_delta :: state_delta where
  "ex_create_delta =
     \<lparr>entityType = Expense, entityId = ''e1'', operation = OpCreate, beforeState = None,
      afterState = Some ex_expense, changedFields = [],
      financialImpact = calculateFinancialImpact Expense OpCreate None (Some ex_expense),
      d_user = ''u1'', d_timestamp = 5\<rparr>"

definition ex_delete_delta :: state_delta where
  "ex_delete_delta =
     \<lparr>entityType = Expense, entityId = ''e1'', operation = OpDelete,
      beforeState = Some ex_expense, afterState = None, changedFields = [],
      financialImpact = calculateFinancialImpact Expense OpDelete (Some ex_expense) None,
      d_user = ''u1'', d_timestamp = 15\<rparr>"

definition ex_snapshot :: audit_snapshot where
  "ex_snapshot =
     \<lparr>snap_user = ''u1'', snapshotDate = 10, snapshotType = ''daily'',
      snap_state =
        \<lparr>totalBalance = - 500, totalIncome = 0, totalExpenses = 500,
         categoryBreakdown =
           [\<lparr>ce_category = ''food'', ce_amount = - 500, ce_transactionCount = 1\<rparr>],
         budgets = [], goals = [], accounts = [], transactionCount = 1, currency = ''INR'',
         state_transactions = None\<rparr>,
      stateHash = ''a1''\<rparr>"

definition ex_ledger :: ledger where
  "ex_ledger =
     \<lparr>snapshots = [ex_snapshot], deltas = [ex_delete_delta, ex_create_delta], expenses = []\<rparr>"




text \<open>
  The numbers \<^verbatim>\<open>0.01\<close>, \<^verbatim>\<open>0.03\<close>, \<^verbatim>\<open>0.1\<close> and \<^verbatim>\<open>0.2\<close> as JavaScript reads them, an expense of
  \<^verbatim>\<open>0.03\<close> with the deltas of its creation and deletion, an income of \<^verbatim>\<open>0.2\<close> with the delta
  of its creation, an expense of 1, and states with a balance of \<^verbatim>\<open>0.01\<close>, a balance of
  \<^verbatim>\<open>0.1\<close>, and totals of \<^verbatim>\<open>1e16\<close>.
\<close>

definition js_0_01 :: rat where
  "js_0_01 = 5764607523034235 / 576460752303423488"

definition js_0_03 :: rat where
  "js_0_03 = 1080863910568919 / 36028797018963968"

definition js_0_1 :: rat where
  "js_0_1 = 3602879701896397 / 36028797018963968"

definition js_0_2 :: rat where
  "js_0_2 = 3602879701896397 / 18014398509481984"

definition ex_entity :: "string \<Rightarrow> rat \<Rightarrow> entity_state" where
  "ex_entity kind amount =
     \<lparr>es_type = kind, es_amount = amount, es_category = ''food'', es_limit = 0,
      es_spent = None, es_targetAmount = 0, es_currentAmount = None, es_budgetId = None,
      es_goalId = None\<rparr>"

definition ex_created :: "entity_type \<Rightarrow> entity_state \<Rightarrow> delta_body" where
  "ex_created etype e =
     \<lparr>entityType = etype, entityId = ''e2'', operation = OpCreate, beforeState = None,
      afterState = Some e, changedFields = [],
      financialImpact = calculateFinancialImpact etype OpCreate None (Some e)\<rparr>"

definition ex_deleted :: "entity_type \<Rightarrow> entity_state \<Rightarrow> delta_body" where
  "ex_deleted etype e =
     \<lparr>entityType = etype, entityId = ''e2'', operation = OpDelete, beforeState = Some e,
      afterState = None, changedFields = [],
      financialImpact = calculateFinancialImpact etype OpDelete (Some e) None\<rparr>"

definition ex_state :: "rat \<Rightarrow> rat \<Rightarrow> rat \<Rightarrow> fin_state" where
  "ex_state bal inc exps =
     \<lparr>totalBalance = bal, totalIncome = inc, totalExpenses = exps, categoryBreakdown = [],
      budgets = [], goals = [], accounts = [], transactionCount = 0, currency = ''INR'',
      state_transactions = None\<rparr>"

text \<open>
  An evolution query in a process in the time zone America/New_York: from 2024-11-02 at
  12:00 UTC to the instant 72 hours later, across the end of daylight saving time.
\<close>

definition ex_change :: int where
  "ex_change = 1730613600000"

definition ex_start :: int where
  "ex_start = 1730548800000"


section \<open>Facts about the rounding of numbers\<close>

lemma roundEven_bounds:
  "of_int (roundEven q) \<le> q + 1 / 2 \<and> q - 1 / 2 \<le> of_int (roundEven q)"
proof -
  have "of_int \<lfloor>q\<rfloor> \<le> q" "q < of_int \<lfloor>q\<rfloor> + 1" by linarith+
  then show ?thesis
    unfolding roundEven_def Let_def by (simp; linarith)
qed

lemma roundEven_of_int [simp]: "roundEven (of_int n) = n"
  by (simp add: roundEven_def)

lemma roundEven_mono: "a \<le> b \<Longrightarrow> roundEven a \<le> roundEven b"
proof (rule ccontr)
  assume ab: "a \<le> b" and "\<not> roundEven a \<le> roundEven b"
  then have "roundEven b + 1 \<le> roundEven a" by simp
  then have "(of_int (roundEven b) :: rat) + 1 \<le> of_int (roundEven a)"
    by (metis of_int_1 of_int_add of_int_le_iff)
  with roundEven_bounds [of a] roundEven_bounds [of b] have "b \<le> a" by linarith
  with ab have "a = b" by simp
  with \<open>\<not> roundEven a \<le> roundEven b\<close> show False by simp
qed

lemma binade_bounds:
  assumes "0 < x"
  shows "2 powi binade x \<le> x \<and> x < 2 powi (binade x + 1)"
proof (cases "1 \<le> x")
  case True
  let ?n = "\<lfloor>x\<rfloor>"
  from True have n: "0 < ?n" by simp
  from bitlen_bounds [OF n] have b: "2 ^ nat (bitlen ?n - 1) \<le> ?n" "?n < 2 ^ nat (bitlen ?n)"
    by simp_all
  from n have bl: "1 \<le> bitlen ?n"
    by (metis bitlen_eq_zero_iff bitlen_nonneg not_less int_one_le_iff_zero_less less_le)
  have e: "binade x = bitlen ?n - 1" using True by (simp add: binade_def)
  have "(2::rat) powi (bitlen ?n - 1) = of_int (2 ^ nat (bitlen ?n - 1))"
    using bl by (simp add: power_int_nonneg_exp)
  also have "\<dots> \<le> of_int ?n" using b(1) by (simp only: of_int_le_iff)
  also have "\<dots> \<le> x" by simp
  finally have lo: "2 powi binade x \<le> x" by (simp add: e)
  have "x < of_int ?n + 1" by linarith
  also have "\<dots> = of_int (?n + 1)" by simp
  also have "\<dots> \<le> of_int (2 ^ nat (bitlen ?n))"
    using b(2) by (simp only: of_int_le_iff)
  also have "\<dots> = (2::rat) powi (bitlen ?n)"
    using bl by (simp add: power_int_nonneg_exp)
  finally have "x < 2 powi (binade x + 1)" by (simp add: e)
  with lo show ?thesis by simp
next
  case False
  with assms have x1: "x < 1" by simp
  let ?c = "\<lceil>1 / x\<rceil>"
  let ?m = "?c - 1"
  from assms x1 have "1 < 1 / x" by (simp add: field_simps)
  then have c2: "2 \<le> ?c" by (simp add: le_ceiling_iff)
  then have m: "0 < ?m" by simp
  from bitlen_bounds [OF m] have b: "2 ^ nat (bitlen ?m - 1) \<le> ?m" "?m < 2 ^ nat (bitlen ?m)"
    by simp_all
  from m have bl: "1 \<le> bitlen ?m"
    by (metis bitlen_eq_zero_iff bitlen_nonneg not_less int_one_le_iff_zero_less less_le)
  have e: "binade x = - bitlen ?m" using False by (simp add: binade_def)
  have "1 / x \<le> of_int ?c" by simp
  also have "\<dots> = of_int (?m + 1)" by simp
  also have "\<dots> \<le> of_int (2 ^ nat (bitlen ?m))"
    using b(2) by (simp only: of_int_le_iff)
  also have "\<dots> = (2::rat) powi (bitlen ?m)"
    using bl by (simp add: power_int_nonneg_exp)
  finally have "1 / x \<le> 2 powi (bitlen ?m)" .
  then have "1 \<le> x * 2 powi (bitlen ?m)"
    using assms by (simp add: field_simps)
  then have lo: "2 powi binade x \<le> x"
    by (simp add: e power_int_minus field_simps)
  have "(2::rat) powi (bitlen ?m - 1) = of_int (2 ^ nat (bitlen ?m - 1))"
    using bl by (simp add: power_int_nonneg_exp)
  also have "\<dots> \<le> of_int ?m" using b(1) by (simp only: of_int_le_iff)
  also have "\<dots> < 1 / x" by linarith
  finally have "2 powi (bitlen ?m - 1) < 1 / x" .
  moreover have pos: "0 < (2::rat) powi (bitlen ?m - 1)"
    by (simp add: zero_less_power_int)
  ultimately have "x < inverse (2 powi (bitlen ?m - 1))"
    using assms by (simp add: field_simps)
  moreover have "(2::rat) powi (binade x + 1) = inverse (2 powi (bitlen ?m - 1))"
    by (simp add: e flip: power_int_minus)
  ultimately have "x < 2 powi (binade x + 1)"
    by simp
  with lo show ?thesis by simp
qed


lemma binade_unique:
  assumes "0 < x" "2 powi e \<le> x" "x < 2 powi (e + 1)"
  shows "binade x = e"
proof (rule ccontr)
  assume ne: "binade x \<noteq> e"
  from binade_bounds [OF assms(1)] have b: "2 powi binade x \<le> x" "x < 2 powi (binade x + 1)"
    by simp_all
  from ne consider "binade x + 1 \<le> e" | "e + 1 \<le> binade x" by linarith
  then show False
  proof cases
    case 1
    then have "(2::rat) powi (binade x + 1) \<le> 2 powi e"
      by (intro power_int_increasing) simp_all
    with b(2) assms(2) show False by linarith
  next
    case 2
    then have "(2::rat) powi (e + 1) \<le> 2 powi binade x"
      by (intro power_int_increasing) simp_all
    with b(1) assms(3) show False by linarith
  qed
qed

lemma binade_mono:
  assumes "0 < x" "x \<le> y"
  shows "binade x \<le> binade y"
proof (rule ccontr)
  assume "\<not> binade x \<le> binade y"
  then have "binade y + 1 \<le> binade x" by simp
  then have "(2::rat) powi (binade y + 1) \<le> 2 powi binade x"
    by (intro power_int_increasing) simp_all
  moreover from assms have "0 < y" by simp
  ultimately show False
    using binade_bounds [OF assms(1)] binade_bounds [OF \<open>0 < y\<close>] assms(2) by linarith
qed

lemma pow2_shift: "(2::rat) powi E / 2 powi (E - 52) = 2 ^ 52"
  by (simp add: power_int_diff)

lemma pow2_unshift: "2 ^ 52 * (2::rat) powi (E - 52) = 2 powi E"
  by (simp add: power_int_diff)

lemma ulp_pos: "0 < ulp x"
  by (simp add: ulp_def zero_less_power_int)

lemma roundDouble_pos: "0 < x \<Longrightarrow> roundDouble x = of_int (roundEven (x / ulp x)) * ulp x"
  by (simp add: roundDouble_def ulp_def Let_def)

lemma roundDouble_neg: "roundDouble (- x) = - roundDouble x"
  by (simp add: roundDouble_def Let_def sgn_minus)

lemma roundDouble_zero [simp]: "roundDouble 0 = 0"
  by (simp add: roundDouble_def)

lemma scaled_bounds:
  assumes "0 < x"
  shows "2 ^ 52 \<le> x / ulp x \<and> x / ulp x < 2 ^ 53"
proof -
  from binade_bounds [OF assms]
  have b: "2 powi binade x \<le> x" "x < 2 powi (binade x + 1)" by simp_all
  have u: "(2::rat) powi binade x = 2 ^ 52 * ulp x" "(2::rat) powi (binade x + 1) = 2 ^ 53 * ulp x"
    by (simp_all add: ulp_def power_int_diff power_int_add)
  from b u ulp_pos [of x] show ?thesis
    by (simp add: pos_le_divide_eq pos_divide_less_eq)
qed

lemma mantissa_bounds:
  assumes "0 < x"
  shows "2 ^ 52 \<le> roundEven (x / ulp x) \<and> roundEven (x / ulp x) \<le> 2 ^ 53"
proof -
  from scaled_bounds [OF assms] have
    "(of_int (2 ^ 52) :: rat) \<le> x / ulp x" "x / ulp x \<le> of_int (2 ^ 53)"
    by simp_all
  from roundEven_mono [OF this(1)] roundEven_mono [OF this(2)] show ?thesis
    by (simp only: roundEven_of_int)
qed

lemma roundDouble_in_binade:
  assumes "0 < x"
  shows "2 powi binade x \<le> roundDouble x \<and> roundDouble x \<le> 2 powi (binade x + 1)"
proof -
  have u: "(2::rat) powi binade x = 2 ^ 52 * ulp x" "(2::rat) powi (binade x + 1) = 2 ^ 53 * ulp x"
    by (simp_all add: ulp_def power_int_diff power_int_add)
  from mantissa_bounds [OF assms] have
    "(of_int (2 ^ 52) :: rat) \<le> of_int (roundEven (x / ulp x))"
    "(of_int (roundEven (x / ulp x)) :: rat) \<le> of_int (2 ^ 53)"
    by (simp_all only: of_int_le_iff)
  then have "(2 ^ 52 :: rat) \<le> of_int (roundEven (x / ulp x))"
    "(of_int (roundEven (x / ulp x)) :: rat) \<le> 2 ^ 53"
    by simp_all
  with ulp_pos [of x] show ?thesis
    by (simp add: roundDouble_pos [OF assms] u)
qed

lemma roundDouble_pos_pos:
  assumes "0 < x"
  shows "0 < roundDouble x"
proof -
  have "0 < (2::rat) powi binade x" by (simp add: zero_less_power_int)
  with roundDouble_in_binade [OF assms] show ?thesis by linarith
qed

lemma roundDouble_mono_pos:
  assumes "0 < x" "x \<le> y"
  shows "roundDouble x \<le> roundDouble y"
proof (cases "binade x = binade y")
  case True
  then have u: "ulp y = ulp x" by (simp add: ulp_def)
  from assms have y: "0 < y" by simp
  from assms ulp_pos [of x] have "x / ulp x \<le> y / ulp x"
    by (simp add: divide_right_mono)
  from roundEven_mono [OF this]
  have "(of_int (roundEven (x / ulp x)) :: rat) \<le> of_int (roundEven (y / ulp x))"
    by (simp only: of_int_le_iff)
  with ulp_pos [of x] show ?thesis
    by (simp add: roundDouble_pos [OF assms(1)] roundDouble_pos [OF y] u)
next
  case False
  from assms have y: "0 < y" by simp
  from False binade_mono [OF assms] have "binade x + 1 \<le> binade y" by simp
  then have "(2::rat) powi (binade x + 1) \<le> 2 powi binade y"
    by (intro power_int_increasing) simp_all
  with roundDouble_in_binade [OF assms(1)] roundDouble_in_binade [OF y]
  show ?thesis by linarith
qed

lemma roundDouble_mono: "x \<le> y \<Longrightarrow> roundDouble x \<le> roundDouble y"
proof -
  assume xy: "x \<le> y"
  consider "0 < x" | "x = 0" "0 < y" | "x = 0" "y = 0" | "x < 0" "0 < y" | "x < 0" "y = 0" | "x < 0" "y < 0"
    using xy by linarith
  then show ?thesis
  proof cases
    case 1
    then show ?thesis using xy by (rule roundDouble_mono_pos)
  next
    case 2
    then show ?thesis using roundDouble_pos_pos [of y] by simp
  next
    case 3
    then show ?thesis by simp
  next
    case 4
    then have "0 < roundDouble (- x)" "0 < roundDouble y"
      by (simp_all add: roundDouble_pos_pos)
    then show ?thesis by (simp add: roundDouble_neg)
  next
    case 5
    then have "0 < roundDouble (- x)" by (simp add: roundDouble_pos_pos)
    with 5 show ?thesis by (simp add: roundDouble_neg)
  next
    case 6
    then have "0 < - y" "- y \<le> - x" using xy by simp_all
    from roundDouble_mono_pos [OF this] show ?thesis by (simp add: roundDouble_neg)
  qed
qed

lemma roundDouble_grid:
  assumes "0 < x" "2 powi e \<le> x" "x < 2 powi (e + 1)"
  shows "roundDouble x = of_int (roundEven (x / 2 powi (e - 52))) * 2 powi (e - 52)"
  using binade_unique [OF assms] by (simp add: roundDouble_pos [OF assms(1)] ulp_def)

lemma roundDouble_idem_pos:
  assumes "0 < x"
  shows "roundDouble (roundDouble x) = roundDouble x"
proof -
  let ?m = "roundEven (x / ulp x)"
  have r: "roundDouble x = of_int ?m * ulp x" by (rule roundDouble_pos [OF assms])
  have rp: "0 < roundDouble x" by (rule roundDouble_pos_pos [OF assms])
  from mantissa_bounds [OF assms] have m: "2 ^ 52 \<le> ?m" "?m \<le> 2 ^ 53" by simp_all
  show ?thesis
  proof (cases "?m = 2 ^ 53")
    case True
    have "(2::rat) powi (binade x + 1) = 2 ^ 53 * ulp x"
      by (simp add: ulp_def power_int_diff power_int_add)
    moreover have "roundDouble x = of_int (2 ^ 53) * ulp x"
      by (simp only: r True)
    ultimately have val: "roundDouble x = 2 powi (binade x + 1)"
      by simp
    have "roundDouble (2 powi (binade x + 1)) =
            of_int (roundEven (2 powi (binade x + 1) / 2 powi (binade x + 1 - 52))) * 2 powi (binade x + 1 - 52)"
      by (rule roundDouble_grid) (simp_all add: zero_less_power_int power_int_add)
    also have "(2::rat) powi (binade x + 1) / 2 powi (binade x + 1 - 52) = of_int (2 ^ 52)"
      by (simp only: pow2_shift) simp
    also have "of_int (roundEven (of_int (2 ^ 52))) * 2 powi (binade x + 1 - 52) = (2::rat) powi (binade x + 1)"
      by (simp only: roundEven_of_int) (simp only: of_int_power of_int_numeral pow2_unshift)
    finally show ?thesis by (simp add: val)
  next
    case False
    with m have lt: "?m < 2 ^ 53" by simp
    have u: "(2::rat) powi binade x = 2 ^ 52 * ulp x" "(2::rat) powi (binade x + 1) = 2 ^ 53 * ulp x"
      by (simp_all add: ulp_def power_int_diff power_int_add)
    from lt have "(of_int ?m :: rat) < of_int (2 ^ 53)" by (simp only: of_int_less_iff)
    then have "(of_int ?m :: rat) < 2 ^ 53" by simp
    with ulp_pos [of x] have hi: "roundDouble x < 2 powi (binade x + 1)"
      by (simp add: r u)
    from roundDouble_in_binade [OF assms] have lo: "2 powi binade x \<le> roundDouble x" by simp
    have "roundDouble (roundDouble x) =
            of_int (roundEven (roundDouble x / 2 powi (binade x - 52))) * 2 powi (binade x - 52)"
      by (rule roundDouble_grid [OF rp lo hi])
    also have "roundDouble x / 2 powi (binade x - 52) = of_int ?m"
      using ulp_pos [of x] by (simp add: r ulp_def)
    finally show ?thesis by (simp add: r ulp_def)
  qed
qed

lemma roundDouble_idem: "roundDouble (roundDouble x) = roundDouble x"
proof -
  consider "0 < x" | "x = 0" | "x < 0" by linarith
  then show ?thesis
  proof cases
    case 1
    then show ?thesis by (rule roundDouble_idem_pos)
  next
    case 2
    then show ?thesis by simp
  next
    case 3
    then have "0 < - x" by simp
    from roundDouble_idem_pos [OF this] show ?thesis by (simp add: roundDouble_neg)
  qed
qed

lemma roundDouble_of_int:
  assumes "\<bar>n\<bar> \<le> 2 ^ 53"
  shows "roundDouble (of_int n) = of_int n"
proof -
  have pos: "roundDouble (of_int k) = of_int k" if k: "0 < k" "k \<le> 2 ^ 53" for k :: int
  proof -
    let ?x = "of_int k :: rat"
    have x: "0 < ?x" using k by simp
    from binade_bounds [OF x] have b: "2 powi binade ?x \<le> ?x" by simp
    have "?x \<le> of_int (2 ^ 53)" using k(2) by (simp only: of_int_le_iff)
    then have "?x \<le> 2 powi 53" by simp
    with b have "(2::rat) powi binade ?x \<le> 2 powi 53" by linarith
    then have e: "binade ?x \<le> 53"
      by (rule power_int_le_imp_le_exp [rotated]) simp_all
    show ?thesis
    proof (cases "binade ?x \<le> 52")
      case True
      define j where "j = nat (52 - binade ?x)"
      have "binade ?x - 52 = - int j" using True by (simp add: j_def)
      then have u: "ulp ?x = inverse (2 ^ j)"
        by (simp add: ulp_def power_int_minus)
      have "?x / ulp ?x = of_int (k * 2 ^ j)" by (simp add: u divide_inverse)
      then have "roundEven (?x / ulp ?x) = k * 2 ^ j" by (simp only: roundEven_of_int)
      then show ?thesis by (simp add: roundDouble_pos [OF x] u)
    next
      case False
      with e have e53: "binade ?x = 53" by simp
      with b have "(2::rat) powi 53 \<le> ?x" by simp
      then have "of_int (2 ^ 53) \<le> ?x" by simp
      then have "2 ^ 53 \<le> k" by (simp only: of_int_le_iff)
      with k have keq: "k = 2 ^ 53" by simp
      have "roundDouble ?x = of_int (roundEven (?x / 2)) * 2"
        by (simp add: roundDouble_pos [OF x] ulp_def e53)
      also have "?x / 2 = of_int (2 ^ 52)" by (simp add: keq)
      finally show ?thesis by (simp only: roundEven_of_int) (simp add: keq)
    qed
  qed
  consider "0 < n" | "n = 0" | "n < 0" by linarith
  then show ?thesis
  proof cases
    case 1
    with assms show ?thesis by (intro pos) simp_all
  next
    case 2
    then show ?thesis by simp
  next
    case 3
    with assms have "roundDouble (of_int (- n)) = of_int (- n)" by (intro pos) simp_all
    then show ?thesis by (simp add: roundDouble_neg)
  qed
qed

lemma isDouble_round [simp]: "isDouble (roundDouble x)"
  by (simp add: isDouble_def roundDouble_idem)

lemma isDouble_dadd [simp]: "isDouble (dadd x y)"
  by (simp add: dadd_def)

lemma isDouble_zero [simp]: "isDouble 0"
  by (simp add: isDouble_def)

lemma isDouble_minus [simp]: "isDouble (- x) = isDouble x"
  by (auto simp: isDouble_def roundDouble_neg)

lemma isDouble_of_int: "\<bar>n\<bar> \<le> 2 ^ 53 \<Longrightarrow> isDouble (of_int n)"
  by (simp add: isDouble_def roundDouble_of_int)

lemma dadd_exact: "isDouble (x + y) \<Longrightarrow> dadd x y = x + y"
  by (simp add: dadd_def isDouble_def)

lemma dadd_grows: "isDouble x \<Longrightarrow> 0 \<le> c \<Longrightarrow> x \<le> dadd x c"
  using roundDouble_mono [of x "x + c"] by (simp add: dadd_def isDouble_def)

lemma dadd_undo: "isDouble x \<Longrightarrow> isDouble (x + c) \<Longrightarrow> dadd (dadd x c) (- c) = x"
  by (simp add: dadd_def isDouble_def)


section \<open>Facts about vector clocks\<close>

lemma clock_get_outside: "k \<notin> fst ` set c \<Longrightarrow> clock_get c k = 0"
  by (auto simp add: clock_get_def split: option.splits dest: map_of_SomeD intro: rev_image_eqI)

lemma actors_set: "set (actors a b) = fst ` set a \<union> fst ` set b"
  by (simp add: actors_def)

lemma below_all_actors:
  "list_ex (\<lambda>k. clock_get a k < clock_get b k) (actors a b) \<longleftrightarrow> (\<exists>k. clock_get a k < clock_get b k)"
proof
  assume "list_ex (\<lambda>k. clock_get a k < clock_get b k) (actors a b)"
  then show "\<exists>k. clock_get a k < clock_get b k"
    by (auto simp: list_ex_iff)
next
  assume "\<exists>k. clock_get a k < clock_get b k"
  then obtain k where k: "clock_get a k < clock_get b k" by blast
  then have "k \<in> fst ` set b"
    using clock_get_outside [of k b] by force
  with k show "list_ex (\<lambda>k. clock_get a k < clock_get b k) (actors a b)"
    unfolding list_ex_iff actors_set by blast
qed

lemma above_all_actors:
  "list_ex (\<lambda>k. clock_get b k < clock_get a k) (actors a b) \<longleftrightarrow> (\<exists>k. clock_get b k < clock_get a k)"
proof
  assume "list_ex (\<lambda>k. clock_get b k < clock_get a k) (actors a b)"
  then show "\<exists>k. clock_get b k < clock_get a k"
    by (auto simp: list_ex_iff)
next
  assume "\<exists>k. clock_get b k < clock_get a k"
  then obtain k where k: "clock_get b k < clock_get a k" by blast
  then have "k \<in> fst ` set a"
    using clock_get_outside [of k a] by force
  with k show "list_ex (\<lambda>k. clock_get b k < clock_get a k) (actors a b)"
    unfolding list_ex_iff actors_set by blast
qed

lemma no_above_iff: "(\<not> (\<exists>k. clock_get b k < clock_get a k)) \<longleftrightarrow> (\<forall>k. clock_get a k \<le> clock_get b k)"
  by (simp add: not_less)

lemma vc_compare_less_iff:
  "vc_compare a b = ''less'' \<longleftrightarrow>
     (\<forall>k. clock_get a k \<le> clock_get b k) \<and> (\<exists>k. clock_get a k < clock_get b k)"
  unfolding vc_compare_def Let_def below_all_actors above_all_actors no_above_iff [symmetric]
  by simp

lemma vc_compare_greater_iff:
  "vc_compare a b = ''greater'' \<longleftrightarrow>
     (\<forall>k. clock_get b k \<le> clock_get a k) \<and> (\<exists>k. clock_get b k < clock_get a k)"
  unfolding vc_compare_def Let_def below_all_actors above_all_actors no_above_iff [symmetric]
  by auto

lemma vc_compare_equal_iff:
  "vc_compare a b = ''equal'' \<longleftrightarrow> (\<forall>k. clock_get a k = clock_get b k)"
proof -
  have "(\<forall>k. clock_get a k = clock_get b k) \<longleftrightarrow>
        (\<not> (\<exists>k. clock_get b k < clock_get a k)) \<and> (\<not> (\<exists>k. clock_get a k < clock_get b k))"
    by (metis less_irrefl linorder_neqE_nat)
  then show ?thesis
    unfolding vc_compare_def Let_def below_all_actors above_all_actors by simp
qed


lemma clock_get_merge:
  "clock_get (vc_merge a b) k = max (clock_get a k) (clock_get b k)"
proof (cases "k \<in> set (actors a b)")
  case True
  then show ?thesis
    by (simp add: vc_merge_def clock_get_def [of "map _ _"] map_of_map_restrict)
next
  case False
  then have "clock_get a k = 0" "clock_get b k = 0"
    by (simp_all add: actors_set clock_get_outside)
  with False show ?thesis
    by (simp add: vc_merge_def clock_get_def [of "map _ _"] map_of_map_restrict)
qed

lemma clock_get_increment:
  "clock_get (vc_increment c x) k = clock_get c k + (if k = x then 1 else 0)"
  by (simp add: vc_increment_def clock_get_def update_conv')





text \<open>
  C8. When the two clocks are equal and the hash computed over the client update equals
  the stored checksum, \<^verbatim>\<open>reconcile\<close> returns action \<^verbatim>\<open>ignore\<close> with reason
  \<^verbatim>\<open>redundant_update\<close> and the store is unchanged: no conflict entry is created.
\<close>

theorem reconcile_redundant_update:
  assumes "\<forall>k. clock_get clientClock k = clock_get (vectorClock transaction) k"
    and "checksum (syncMetadata transaction) = Some (h clientUpdate)"
  shows "reconcile h st transaction clientUpdate clientClock deviceId = (Ignore ''redundant_update'', st)"
proof -
  from assms(1) have "vc_compare clientClock (vectorClock transaction) = ''equal''"
    by (simp add: vc_compare_equal_iff)
  with assms(2) show ?thesis by (simp add: reconcile_def reconcileRel_def)
qed

theorem reconcile_redundant_update_witness:
  "reconcile ex_hash ex_store ex_tx ex_update [(''server'', 2)] ''phone'' = (Ignore ''redundant_update'', ex_store)"
proof -
  have eq: "\<forall>k. clock_get [(''server'', 2)] k = clock_get (vectorClock ex_tx) k"
    by (simp add: clock_get_def ex_tx_def)
  have hs: "checksum (syncMetadata ex_tx) = Some (ex_hash ex_update)"
    by (simp add: ex_tx_def ex_hash_def ex_update_def)
  show ?thesis
    using reconcile_redundant_update [where h = ex_hash and clientUpdate = ex_update, OF eq hs]
    by simp
qed

text \<open>
  C2. When the client clock strictly dominates the server clock, \<^verbatim>\<open>reconcile\<close> returns
  action \<^verbatim>\<open>update\<close>; the clock to persist is the merge of the two clocks with the counter
  of \<^verbatim>\<open>server\<close> incremented, so each actor's counter is the maximum of its two counters,
  plus one for \<^verbatim>\<open>server\<close>; the checksum is the hash of the client payload. The store is
  unchanged by the call itself.
\<close>

theorem reconcile_causal_update:
  assumes "\<forall>k. clock_get (vectorClock transaction) k \<le> clock_get clientClock k"
    and "\<exists>k. clock_get (vectorClock transaction) k < clock_get clientClock k"
  shows "\<exists>newClock.
      reconcile h st transaction clientUpdate clientClock deviceId =
        (Update \<lparr>u_fields = clientUpdate, u_vectorClock = newClock, u_checksum = h clientUpdate\<rparr>, st)
    \<and> newClock = vc_increment (vc_merge (vectorClock transaction) clientClock) ''server''
    \<and> (\<forall>k. clock_get newClock k =
          max (clock_get (vectorClock transaction) k) (clock_get clientClock k)
            + (if k = ''server'' then 1 else 0))"
proof -
  from assms have "vc_compare clientClock (vectorClock transaction) = ''greater''"
    by (simp add: vc_compare_greater_iff)
  then show ?thesis
    by (simp add: reconcile_def reconcileRel_def clock_get_increment clock_get_merge)
qed

theorem reconcile_causal_update_witness:
  "vc_merge [(''server'', 2)] [(''server'', 3), (''C'', 1)] = [(''server'', 3), (''C'', 1)]
   \<and> reconcile ex_hash ex_store ex_tx ex_update [(''server'', 3), (''C'', 1)] ''phone'' =
       (Update \<lparr>u_fields = ex_update, u_vectorClock = [(''server'', 4), (''C'', 1)],
                 u_checksum = ''h500''\<rparr>, ex_store)"
proof -
  have le: "\<forall>k. clock_get (vectorClock ex_tx) k \<le> clock_get [(''server'', 3), (''C'', 1)] k"
    by (simp add: clock_get_def ex_tx_def)
  have lt: "\<exists>k. clock_get (vectorClock ex_tx) k < clock_get [(''server'', 3), (''C'', 1)] k"
    by (rule exI [of _ "''server''"]) (simp add: clock_get_def ex_tx_def)
  have m: "vc_merge [(''server'', 2)] [(''server'', 3), (''C'', 1)] = [(''server'', 3), (''C'', 1)]"
    by (simp add: vc_merge_def actors_def clock_get_def)
  have i: "vc_increment [(''server'', 3), (''C'', 1)] ''server'' = [(''server'', 4), (''C'', 1)]"
    by (simp add: vc_increment_def clock_get_def)
  have hs: "ex_hash ex_update = ''h500''"
    by (simp add: ex_hash_def ex_update_def)
  have v: "vectorClock ex_tx = [(''server'', 2)]" by (simp add: ex_tx_def)
  from reconcile_causal_update [OF le lt, of ex_hash ex_store ex_update "''phone''"]
  show ?thesis unfolding v m i hs using m by simp
qed



text \<open>
  C5 (as amended). \<^verbatim>\<open>resolveConflict\<close> fails with the not-found error when the
  referenced conflict does not exist; the failure carries no new store, so neither a record
  nor a conflict entry is modified.
\<close>

theorem resolveConflict_missing:
  assumes "length (conflicts st) \<le> conflictId"
  shows "resolveConflict st conflictId strategy resolvedData now = Inl ConflictNotFound"
  using assms by (simp add: resolveConflict_def findById_def)

theorem resolveConflict_missing_witness:
  "resolveConflict ex_store 0 ''client_wins'' Map.empty 2000 = Inl ConflictNotFound"
proof -
  have "length (conflicts ex_store) \<le> 0" by (simp add: ex_store_def)
  from resolveConflict_missing [OF this] show ?thesis by simp
qed

text \<open>
  C5 as stated does not hold for a conflict that is already resolved: the status of the
  entry is never read, so a second resolution succeeds, rewrites the transaction, bumps
  its clock and restamps the entry.
\<close>

theorem resolveConflict_resolved_counterexample:
  "status (conflicts ex_resolved_store ! 0) = ''resolved''
   \<and> \<not> isl (resolveConflict ex_resolved_store 0 ''client_wins'' Map.empty 2000)
   \<and> transactions (fst (projr (resolveConflict ex_resolved_store 0 ''client_wins'' Map.empty 2000))) ''t1''
        \<noteq> transactions ex_resolved_store ''t1''
   \<and> vectorClock (snd (projr (resolveConflict ex_resolved_store 0 ''client_wins'' Map.empty 2000)))
        = [(''server'', 3)]
   \<and> resolvedAt (conflicts (fst (projr (resolveConflict ex_resolved_store 0 ''client_wins'' Map.empty 2000))) ! 0)
        = Some 2000"
  by (simp add: resolveConflict_def findById_def ex_resolved_store_def ex_tx_def tx_set_def
      clock_get_def ex_update_def Let_def)




section \<open>Replay: a snapshot is a resumable prefix of the fold\<close>

lemma sorted_split_at:
  "sorted (map f ys) \<Longrightarrow>
     filter (\<lambda>x. f x \<le> (c::int)) ys @ filter (\<lambda>x. c < f x) ys = ys"
proof (induction ys)
  case Nil
  then show ?case by simp
next
  case (Cons y ys)
  then have later: "\<forall>z \<in> set ys. f y \<le> f z" and rest: "sorted (map f ys)"
    by simp_all
  show ?case
  proof (cases "f y \<le> c")
    case True
    with Cons.IH [OF rest] show ?thesis by simp
  next
    case False
    with later have "\<forall>z \<in> set ys. c < f z" by fastforce
    then have "filter (\<lambda>x. f x \<le> c) ys = []" "filter (\<lambda>x. c < f x) ys = ys"
      by (auto simp: filter_empty_conv filter_id_conv)
    with False show ?thesis by simp
  qed
qed

lemma sort_key_window:
  assumes "lo \<le> hi"
  shows "sort_key f (filter (\<lambda>x. P x \<and> f x \<le> (hi::int)) xs) =
         sort_key f (filter (\<lambda>x. P x \<and> f x \<le> lo) xs)
           @ sort_key f (filter (\<lambda>x. P x \<and> lo < f x \<and> f x \<le> hi) xs)"
proof -
  let ?Z = "filter (\<lambda>x. P x \<and> f x \<le> hi) xs"
  have "sort_key f ?Z =
        filter (\<lambda>x. f x \<le> lo) (sort_key f ?Z) @ filter (\<lambda>x. lo < f x) (sort_key f ?Z)"
    by (simp add: sorted_split_at)
  also have "filter (\<lambda>x. f x \<le> lo) (sort_key f ?Z) = sort_key f (filter (\<lambda>x. f x \<le> lo) ?Z)"
    by (simp add: filter_sort)
  also have "filter (\<lambda>x. lo < f x) (sort_key f ?Z) = sort_key f (filter (\<lambda>x. lo < f x) ?Z)"
    by (simp add: filter_sort)
  also have "filter (\<lambda>x. f x \<le> lo) ?Z = filter (\<lambda>x. P x \<and> f x \<le> lo) xs"
    using assms by (auto intro: filter_cong)
  also have "filter (\<lambda>x. lo < f x) ?Z = filter (\<lambda>x. P x \<and> lo < f x \<and> f x \<le> hi) xs"
    by (auto intro: filter_cong)
  finally show ?thesis .
qed

lemma deltasUpTo_split:
  "lo \<le> hi \<Longrightarrow> deltasUpTo db uid hi = deltasUpTo db uid lo @ deltasBetween db uid lo hi"
  unfolding deltasUpTo_def deltasBetween_def
  using sort_key_window [of lo hi d_timestamp "\<lambda>d. d_user d = uid" "deltas db"]
  by simp

lemma reconstruct_resume:
  "lo \<le> hi \<Longrightarrow>
     reconstructFromScratch db uid hi =
       applyDeltas (reconstructFromScratch db uid lo) (deltasBetween db uid lo hi)"
  by (simp add: reconstructFromScratch_def applyDeltas_def deltasUpTo_split)

lemma findClosestSnapshot_Some:
  assumes "findClosestSnapshot db uid target = Some s"
  shows "s \<in> set (snapshots db) \<and> snap_user s = uid \<and> snapshotDate s \<le> target"
proof -
  let ?c = "filter (\<lambda>s. snap_user s = uid \<and> snapshotDate s \<le> target) (snapshots db)"
  from assms obtain rest where "sort_key (\<lambda>s. - snapshotDate s) ?c = s # rest"
    by (auto simp: findClosestSnapshot_def split: list.splits)
  then have "s \<in> set (sort_key (\<lambda>s. - snapshotDate s) ?c)" by simp
  then have "s \<in> set ?c" by simp
  then show ?thesis by simp
qed


lemma replay_state_core:
  assumes "\<forall>snap. findClosestSnapshot db uid target = Some snap \<longrightarrow>
             snap_state snap = reconstructFromScratch db uid (snapshotDate snap)"
  shows "r_state (replayToDate db uid target incT incM) =
           (if incT
            then (reconstructFromScratch db uid target)
                   \<lparr>state_transactions := Some (getTransactionsUpTo db uid target)\<rparr>
            else reconstructFromScratch db uid target)"
proof -
  have base: "(case findClosestSnapshot db uid target of
                 Some snap \<Rightarrow>
                   applyDeltas (snap_state snap) (deltasBetween db uid (snapshotDate snap) target)
               | None \<Rightarrow> reconstructFromScratch db uid target)
              = reconstructFromScratch db uid target"
  proof (cases "findClosestSnapshot db uid target")
    case None
    then show ?thesis by simp
  next
    case (Some snap)
    from findClosestSnapshot_Some [OF Some] assms Some
    have "snap_state snap = reconstructFromScratch db uid (snapshotDate snap)"
      and "snapshotDate snap \<le> target"
      by auto
    with Some show ?thesis by (simp add: reconstruct_resume [symmetric])
  qed
  then show ?thesis
    by (simp add: replayToDate_def Let_def split: option.splits prod.splits)
qed


lemma ledger_without_snapshots:
  "reconstructFromScratch (db\<lparr>snapshots := sn\<rparr>) uid target = reconstructFromScratch db uid target"
  "getTransactionsUpTo (db\<lparr>snapshots := sn\<rparr>) uid target = getTransactionsUpTo db uid target"
  "deltasBetween (db\<lparr>snapshots := sn\<rparr>) uid lo hi = deltasBetween db uid lo hi"
  by (simp_all add: reconstructFromScratch_def deltasUpTo_def getTransactionsUpTo_def
      deltasBetween_def)



section \<open>When a generated snapshot is a checkpoint\<close>

text \<open>
  A snapshot generated from a ledger whose snapshots are checkpoints is a checkpoint
  again if no delta of the user is dated between the two clock readings of the
  generation; and logging a delta dated after every snapshot keeps all snapshots
  checkpoints. A delta dated between the two readings is in neither the stored state nor
  the deltas folded onto it later.
\<close>

lemma isCheckpoint_snapshots_irrelevant:
  "isCheckpoint (db\<lparr>snapshots := sn\<rparr>) = isCheckpoint db"
  by (rule ext) (simp add: isCheckpoint_def ledger_without_snapshots)

lemma generateSnapshot_checkpoints:
  assumes all: "list_all (isCheckpoint db) (snapshots db)"
    and order: "t0 \<le> t1"
    and quiet: "deltasBetween db uid t0 t1 = []"
  shows "list_all (isCheckpoint (generateSnapshot sha db uid type t0 t1))
           (snapshots (generateSnapshot sha db uid type t0 t1))"
proof -
  have "\<forall>snap. findClosestSnapshot db uid t0 = Some snap \<longrightarrow>
             snap_state snap = reconstructFromScratch db uid (snapshotDate snap)"
  proof (intro allI impI)
    fix snap
    assume f: "findClosestSnapshot db uid t0 = Some snap"
    from findClosestSnapshot_Some [OF f] all
    show "snap_state snap = reconstructFromScratch db uid (snapshotDate snap)"
      by (auto simp: list_all_iff isCheckpoint_def)
  qed
  from replay_state_core [OF this, of False False]
  have "r_state (replayToDate db uid t0 False False) = reconstructFromScratch db uid t0"
    by simp
  also have "\<dots> = reconstructFromScratch db uid t1"
    using reconstruct_resume [OF order, of db uid] quiet by (simp add: applyDeltas_def)
  finally have new: "r_state (replayToDate db uid t0 False False) = reconstructFromScratch db uid t1" .
  show ?thesis
    using all new
    by (simp add: generateSnapshot_def createSnapshot_def isCheckpoint_snapshots_irrelevant)
      (simp add: isCheckpoint_def)
qed

lemma deltasUpTo_append_later:
  assumes "hi < d_timestamp d"
  shows "deltasUpTo (db\<lparr>deltas := deltas db @ [d]\<rparr>) uid hi = deltasUpTo db uid hi"
  using assms by (simp add: deltasUpTo_def)

lemma logged_delta_keeps_checkpoints:
  assumes all: "list_all (isCheckpoint db) (snapshots db)"
    and later: "\<forall>s \<in> set (snapshots db). snapshotDate s < d_timestamp d"
  shows "list_all (isCheckpoint (db\<lparr>deltas := deltas db @ [d]\<rparr>))
           (snapshots (db\<lparr>deltas := deltas db @ [d]\<rparr>))"
  using assms
  by (auto simp: list_all_iff isCheckpoint_def reconstructFromScratch_def deltasUpTo_append_later)


section \<open>What one delta does to the totals\<close>

lemma updateBudgetInState_fields [simp]:
  "totalBalance (updateBudgetInState s d) = totalBalance s"
  "totalIncome (updateBudgetInState s d) = totalIncome s"
  "totalExpenses (updateBudgetInState s d) = totalExpenses s"
  "transactionCount (updateBudgetInState s d) = transactionCount s"
  "categoryBreakdown (updateBudgetInState s d) = categoryBreakdown s"
  by (simp_all add: updateBudgetInState_def Let_def)

lemma updateGoalInState_fields [simp]:
  "totalBalance (updateGoalInState s d) = totalBalance s"
  "totalIncome (updateGoalInState s d) = totalIncome s"
  "totalExpenses (updateGoalInState s d) = totalExpenses s"
  "transactionCount (updateGoalInState s d) = transactionCount s"
  "categoryBreakdown (updateGoalInState s d) = categoryBreakdown s"
  by (simp_all add: updateGoalInState_def Let_def)

lemma applyDelta_totalBalance:
  "totalBalance (applyDelta s d) =
     (if balanceChange (financialImpact d) = 0 then totalBalance s
      else dadd (totalBalance s) (balanceChange (financialImpact d)))"
  by (simp add: applyDelta_def Let_def)

lemma applyDelta_totalIncome:
  "totalIncome (applyDelta s d) =
     (if 0 < balanceChange (financialImpact d)
      then dadd (totalIncome s) (balanceChange (financialImpact d)) else totalIncome s)"
  by (simp add: applyDelta_def Let_def)

lemma applyDelta_totalExpenses:
  "totalExpenses (applyDelta s d) =
     (if balanceChange (financialImpact d) < 0
      then dadd (totalExpenses s) \<bar>balanceChange (financialImpact d)\<bar> else totalExpenses s)"
  by (simp add: applyDelta_def Let_def)

lemma applyDelta_transactionCount:
  "transactionCount (applyDelta s d) =
     (if operation d = OpCreate then dadd (transactionCount s) 1
      else if operation d = OpDelete then max 0 (dsub (transactionCount s) 1)
      else transactionCount s)"
  by (simp add: applyDelta_def Let_def)

lemma applyDelta_categoryBreakdown:
  "categoryBreakdown (applyDelta s d) =
     foldl (applyCategory (operation d) (balanceChange (financialImpact d)))
       (categoryBreakdown s) (affectedCategories (financialImpact d))"
  by (simp add: applyDelta_def Let_def)

lemma applyDelta_totals_double:
  "isDouble (totalIncome s) \<Longrightarrow> isDouble (totalIncome (applyDelta s d))"
  "isDouble (totalExpenses s) \<Longrightarrow> isDouble (totalExpenses (applyDelta s d))"
  by (simp_all add: applyDelta_totalIncome applyDelta_totalExpenses)

lemma applyDelta_totals_grow:
  "isDouble (totalIncome s) \<Longrightarrow> totalIncome s \<le> totalIncome (applyDelta s d)"
  "isDouble (totalExpenses s) \<Longrightarrow> totalExpenses s \<le> totalExpenses (applyDelta s d)"
  by (simp_all add: applyDelta_totalIncome applyDelta_totalExpenses dadd_grows)

lemma applyDeltas_totals_mono:
  "isDouble (totalIncome s) \<Longrightarrow> isDouble (totalExpenses s) \<Longrightarrow>
     totalIncome s \<le> totalIncome (applyDeltas s ds) \<and> totalExpenses s \<le> totalExpenses (applyDeltas s ds)"
proof (induction ds arbitrary: s)
  case Nil
  then show ?case by (simp add: applyDeltas_def)
next
  case (Cons d ds)
  have step: "applyDeltas s (d # ds) = applyDeltas (applyDelta s d) ds"
    by (simp add: applyDeltas_def)
  from Cons.prems have "isDouble (totalIncome (applyDelta s d))"
    "isDouble (totalExpenses (applyDelta s d))"
    by (simp_all add: applyDelta_totals_double)
  from Cons.IH [OF this] applyDelta_totals_grow [of s d] Cons.prems
  show ?case unfolding step by linarith
qed

lemma getReverseDelta_fields [simp]:
  "balanceChange (financialImpact (getReverseDelta d)) = - balanceChange (financialImpact d)"
  "affectedCategories (financialImpact (getReverseDelta d)) = affectedCategories (financialImpact d)"
  "operation (getReverseDelta d) = reverseOp (operation d)"
  by (simp_all add: getReverseDelta_def reverseOp_def)

lemma expense_impacts:
  assumes "es_type e \<noteq> ''income''"
  shows "balanceChange (calculateFinancialImpact Expense OpCreate None (Some e)) = - es_amount e"
    and "balanceChange (calculateFinancialImpact Expense OpDelete (Some e) None) = es_amount e"
  using assms by (simp_all add: calculateFinancialImpact_def Let_def)

text \<open>
  C10 (as amended). \<^verbatim>\<open>applyDelta\<close> classifies by the sign of the balance change alone: two
  deltas with the same balance change, whatever their entity types and operations, have
  the same effect on the total income and the total expenses; a positive change is added
  to the income and leaves the expenses, a negative one adds its absolute value to the
  expenses and leaves the income, each addition being a floating-point addition; so
  neither total decreases under any replay. The delta logged for deleting an expense of
  positive amount has a positive balance change, and after the deltas of its creation and
  deletion the income and the expenses are the rounded sums of their earlier values and
  the amount: never below the earlier values, above them when the sum needs no rounding;
  and the total balance is back at its earlier value when the subtraction of the amount
  needs no rounding.
\<close>

theorem applyDelta_classifies_by_sign:
  fixes d :: "'a delta_body_scheme" and ds :: "'b delta_body_scheme list"
    and c r :: "'c delta_body_scheme" and d' :: "'d delta_body_scheme"
  shows
  "(balanceChange (financialImpact d') = balanceChange (financialImpact d) \<longrightarrow>
      totalIncome (applyDelta s d') = totalIncome (applyDelta s d)
      \<and> totalExpenses (applyDelta s d') = totalExpenses (applyDelta s d))
   \<and> (0 < balanceChange (financialImpact d) \<longrightarrow>
      totalIncome (applyDelta s d) = dadd (totalIncome s) (balanceChange (financialImpact d))
      \<and> totalExpenses (applyDelta s d) = totalExpenses s)
   \<and> (balanceChange (financialImpact d) < 0 \<longrightarrow>
      totalExpenses (applyDelta s d) = dadd (totalExpenses s) \<bar>balanceChange (financialImpact d)\<bar>
      \<and> totalIncome (applyDelta s d) = totalIncome s)
   \<and> (isDouble (totalIncome s) \<and> isDouble (totalExpenses s) \<longrightarrow>
      totalIncome s \<le> totalIncome (applyDeltas s ds)
      \<and> totalExpenses s \<le> totalExpenses (applyDeltas s ds))
   \<and> (0 < es_amount e \<and> es_type e \<noteq> ''income''
        \<and> operation c = OpCreate
        \<and> financialImpact c = calculateFinancialImpact Expense OpCreate None (Some e)
        \<and> operation r = OpDelete
        \<and> financialImpact r = calculateFinancialImpact Expense OpDelete (Some e) None \<longrightarrow>
      0 < balanceChange (financialImpact r)
      \<and> totalIncome (applyDeltas s [c, r]) = dadd (totalIncome s) (es_amount e)
      \<and> totalExpenses (applyDeltas s [c, r]) = dadd (totalExpenses s) (es_amount e)
      \<and> (isDouble (totalIncome s + es_amount e) \<longrightarrow>
           totalIncome s < totalIncome (applyDeltas s [c, r]))
      \<and> (isDouble (totalExpenses s + es_amount e) \<longrightarrow>
           totalExpenses s < totalExpenses (applyDeltas s [c, r]))
      \<and> (isDouble (totalBalance s) \<and> isDouble (totalBalance s - es_amount e) \<longrightarrow>
           totalBalance (applyDeltas s [c, r]) = totalBalance s))"
proof -
  have same: "totalIncome (applyDelta s d') = totalIncome (applyDelta s d)
      \<and> totalExpenses (applyDelta s d') = totalExpenses (applyDelta s d)"
    if "balanceChange (financialImpact d') = balanceChange (financialImpact d)"
    using that by (simp add: applyDelta_totalIncome applyDelta_totalExpenses)
  have sign: "(0 < balanceChange (financialImpact d) \<longrightarrow>
      totalIncome (applyDelta s d) = dadd (totalIncome s) (balanceChange (financialImpact d))
      \<and> totalExpenses (applyDelta s d) = totalExpenses s)
   \<and> (balanceChange (financialImpact d) < 0 \<longrightarrow>
      totalExpenses (applyDelta s d) = dadd (totalExpenses s) \<bar>balanceChange (financialImpact d)\<bar>
      \<and> totalIncome (applyDelta s d) = totalIncome s)"
    by (simp add: applyDelta_totalIncome applyDelta_totalExpenses)
  have mono: "totalIncome s \<le> totalIncome (applyDeltas s ds)
      \<and> totalExpenses s \<le> totalExpenses (applyDeltas s ds)"
    if "isDouble (totalIncome s) \<and> isDouble (totalExpenses s)"
    using that applyDeltas_totals_mono [of s ds] by simp
  have pair: "0 < balanceChange (financialImpact r)
      \<and> totalIncome (applyDeltas s [c, r]) = dadd (totalIncome s) (es_amount e)
      \<and> totalExpenses (applyDeltas s [c, r]) = dadd (totalExpenses s) (es_amount e)
      \<and> (isDouble (totalIncome s + es_amount e) \<longrightarrow>
           totalIncome s < totalIncome (applyDeltas s [c, r]))
      \<and> (isDouble (totalExpenses s + es_amount e) \<longrightarrow>
           totalExpenses s < totalExpenses (applyDeltas s [c, r]))
      \<and> (isDouble (totalBalance s) \<and> isDouble (totalBalance s - es_amount e) \<longrightarrow>
           totalBalance (applyDeltas s [c, r]) = totalBalance s)"
    if h: "0 < es_amount e" "es_type e \<noteq> ''income''"
      "financialImpact c = calculateFinancialImpact Expense OpCreate None (Some e)"
      "financialImpact r = calculateFinancialImpact Expense OpDelete (Some e) None"
  proof -
    from h have bc: "balanceChange (financialImpact c) = - es_amount e"
      "balanceChange (financialImpact r) = es_amount e"
      by (simp_all add: expense_impacts)
    have inc: "totalIncome (applyDeltas s [c, r]) = dadd (totalIncome s) (es_amount e)"
      and exps: "totalExpenses (applyDeltas s [c, r]) = dadd (totalExpenses s) (es_amount e)"
      using h(1) by (simp_all add: applyDeltas_def applyDelta_totalIncome applyDelta_totalExpenses bc)
    have bal: "totalBalance (applyDeltas s [c, r]) =
        dadd (dadd (totalBalance s) (- es_amount e)) (es_amount e)"
      using h(1) by (simp add: applyDeltas_def applyDelta_totalBalance bc)
    have undone: "totalBalance (applyDeltas s [c, r]) = totalBalance s"
      if "isDouble (totalBalance s) \<and> isDouble (totalBalance s - es_amount e)"
      using that dadd_undo [of "totalBalance s" "- es_amount e"] by (simp add: bal)
    from h(1) bc inc exps undone show ?thesis
      by (simp add: dadd_exact)
  qed
  from same sign mono pair show ?thesis by blast
qed


section \<open>A delta followed by its reverse delta\<close>

lemma findIndex_update_first:
  "(case findIndex p xs of Some i \<Rightarrow> xs[i := f (xs ! i)] | None \<Rightarrow> xs) = update_first p f xs"
  by (induction xs) (auto split: option.splits)

lemma findIndex_None_iff: "findIndex p xs = None \<longleftrightarrow> (\<forall>x \<in> set xs. \<not> p x)"
  by (induction xs) auto

lemma applyCategory_present:
  assumes "cat \<in> ce_category ` set breakdown"
  shows "applyCategory oper change breakdown cat =
           update_first (\<lambda>e. ce_category e = cat) (bumpEntry oper change) breakdown"
proof -
  from assms have "findIndex (\<lambda>e. ce_category e = cat) breakdown \<noteq> None"
    by (auto simp: findIndex_None_iff)
  then obtain i where i: "findIndex (\<lambda>e. ce_category e = cat) breakdown = Some i"
    by blast
  have "applyCategory oper change breakdown cat = breakdown[i := bumpEntry oper change (breakdown ! i)]"
    by (simp add: applyCategory_def i bumpEntry_def)
  also have "\<dots> = update_first (\<lambda>e. ce_category e = cat) (bumpEntry oper change) breakdown"
    using findIndex_update_first [where p = "\<lambda>e. ce_category e = cat" and xs = breakdown
        and f = "bumpEntry oper change"]
    by (simp add: i)
  finally show ?thesis .
qed

lemma update_first_keys:
  "(\<And>x. k (f x) = k x) \<Longrightarrow> map k (update_first p f xs) = map k xs"
  by (induction xs) auto

lemma update_first_undo:
  "(\<And>x. x \<in> set xs \<Longrightarrow> p x \<Longrightarrow> g (f x) = x) \<Longrightarrow> (\<And>x. p (f x) = p x) \<Longrightarrow>
     update_first p g (update_first p f xs) = xs"
  by (induction xs) auto

lemma update_first_commute:
  "(\<And>x. \<not> (p x \<and> q x)) \<Longrightarrow> (\<And>x. p (g x) = p x) \<Longrightarrow> (\<And>x. q (f x) = q x) \<Longrightarrow>
     update_first p f (update_first q g xs) = update_first q g (update_first p f xs)"
  by (induction xs) auto

lemma bumpEntry_category [simp]: "ce_category (bumpEntry oper change e) = ce_category e"
  by (simp add: bumpEntry_def)

lemma opStep_reverse [simp]: "opStep (reverseOp oper) = - opStep oper"
  by (simp add: opStep_def reverseOp_def)

lemma bumpEntry_undo:
  assumes "isDouble (ce_amount e)" "isDouble (ce_amount e + change)"
    "isDouble (ce_transactionCount e)" "isDouble (ce_transactionCount e + opStep oper)"
  shows "bumpEntry (reverseOp oper) (- change) (bumpEntry oper change e) = e"
proof -
  have "bumpEntry oper change e =
          e\<lparr>ce_amount := dadd (ce_amount e) change,
            ce_transactionCount := dadd (ce_transactionCount e) (opStep oper)\<rparr>" for oper change e
    by (simp add: bumpEntry_def opStep_def)
  then show ?thesis
    using assms by (simp add: dadd_undo)
qed

lemma foldl_applyCategory_present:
  assumes "set cats \<subseteq> ce_category ` set breakdown"
  shows "foldl (applyCategory oper change) breakdown cats =
           foldl (\<lambda>b cat. update_first (\<lambda>e. ce_category e = cat) (bumpEntry oper change) b)
             breakdown cats"
  using assms
proof (induction cats arbitrary: breakdown)
  case Nil
  then show ?case by simp
next
  case (Cons cat cats)
  let ?b = "update_first (\<lambda>e. ce_category e = cat) (bumpEntry oper change) breakdown"
  from Cons.prems have here: "cat \<in> ce_category ` set breakdown" by simp
  have "map ce_category ?b = map ce_category breakdown"
    by (rule update_first_keys) simp
  then have "ce_category ` set ?b = ce_category ` set breakdown"
    by (metis set_map)
  with Cons.prems have "set cats \<subseteq> ce_category ` set ?b" by simp
  from Cons.IH [OF this] show ?case
    by (simp add: applyCategory_present [OF here])
qed

lemma foldl_update_first_keys:
  "ce_category ` set (foldl (\<lambda>b cat. update_first (\<lambda>e. ce_category e = cat) (bumpEntry oper change) b) breakdown cats)
     = ce_category ` set breakdown"
proof (induction cats arbitrary: breakdown)
  case Nil
  then show ?case by simp
next
  case (Cons cat cats)
  have "map ce_category (update_first (\<lambda>e. ce_category e = cat) (bumpEntry oper change) breakdown)
          = map ce_category breakdown"
    by (rule update_first_keys) simp
  then have "ce_category ` set (update_first (\<lambda>e. ce_category e = cat) (bumpEntry oper change) breakdown)
          = ce_category ` set breakdown"
    by (metis set_map)
  with Cons.IH show ?case by simp
qed

lemma update_first_past_fold:
  assumes "cat \<notin> set cats"
  shows "update_first (\<lambda>e. ce_category e = cat) (bumpEntry o1 c1)
     (foldl (\<lambda>b cat. update_first (\<lambda>e. ce_category e = cat) (bumpEntry o2 c2) b) breakdown cats)
   = foldl (\<lambda>b cat. update_first (\<lambda>e. ce_category e = cat) (bumpEntry o2 c2) b)
       (update_first (\<lambda>e. ce_category e = cat) (bumpEntry o1 c1) breakdown) cats"
  using assms
proof (induction cats arbitrary: breakdown)
  case Nil
  then show ?case by simp
next
  case (Cons c cats)
  from Cons.prems have ne: "cat \<noteq> c" and rest: "cat \<notin> set cats" by simp_all
  have "update_first (\<lambda>e. ce_category e = cat) (bumpEntry o1 c1)
          (update_first (\<lambda>e. ce_category e = c) (bumpEntry o2 c2) breakdown)
        = update_first (\<lambda>e. ce_category e = c) (bumpEntry o2 c2)
          (update_first (\<lambda>e. ce_category e = cat) (bumpEntry o1 c1) breakdown)"
    using ne by (intro update_first_commute) simp_all
  with Cons.IH [OF rest] show ?case by simp
qed

lemma foldl_update_first_undo:
  assumes "distinct cats"
    and "\<forall>e \<in> set breakdown. ce_category e \<in> set cats \<longrightarrow>
           isDouble (ce_amount e) \<and> isDouble (ce_amount e + change)
           \<and> isDouble (ce_transactionCount e) \<and> isDouble (ce_transactionCount e + opStep oper)"
  shows "foldl (\<lambda>b cat. update_first (\<lambda>e. ce_category e = cat) (bumpEntry (reverseOp oper) (- change)) b)
     (foldl (\<lambda>b cat. update_first (\<lambda>e. ce_category e = cat) (bumpEntry oper change) b) breakdown cats)
     cats = breakdown"
  using assms
proof (induction cats)
  case Nil
  then show ?case by simp
next
  case (Cons c cats)
  from Cons.prems have out: "c \<notin> set cats" and rest: "distinct cats" by simp_all
  from Cons.prems(2) have tail: "\<forall>e \<in> set breakdown. ce_category e \<in> set cats \<longrightarrow>
           isDouble (ce_amount e) \<and> isDouble (ce_amount e + change)
           \<and> isDouble (ce_transactionCount e) \<and> isDouble (ce_transactionCount e + opStep oper)"
    by simp
  have undo: "update_first (\<lambda>e. ce_category e = c) (bumpEntry (reverseOp oper) (- change))
          (update_first (\<lambda>e. ce_category e = c) (bumpEntry oper change) breakdown) = breakdown"
    using Cons.prems(2) by (intro update_first_undo) (simp_all add: bumpEntry_undo)
  show ?case
    by (simp add: update_first_past_fold [OF out] undo Cons.IH [OF rest tail])
qed

lemma categories_round_trip:
  assumes "set cats \<subseteq> ce_category ` set breakdown" "distinct cats"
    and "\<forall>e \<in> set breakdown. ce_category e \<in> set cats \<longrightarrow>
           isDouble (ce_amount e) \<and> isDouble (ce_amount e + change)
           \<and> isDouble (ce_transactionCount e) \<and> isDouble (ce_transactionCount e + opStep oper)"
  shows "foldl (applyCategory (reverseOp oper) (- change))
           (foldl (applyCategory oper change) breakdown cats) cats = breakdown"
proof -
  let ?mid = "foldl (\<lambda>b cat. update_first (\<lambda>e. ce_category e = cat) (bumpEntry oper change) b) breakdown cats"
  have mid: "foldl (applyCategory oper change) breakdown cats = ?mid"
    by (rule foldl_applyCategory_present [OF assms(1)])
  have "set cats \<subseteq> ce_category ` set ?mid"
    using assms(1) by (simp add: foldl_update_first_keys)
  from foldl_applyCategory_present [OF this]
  show ?thesis by (simp add: mid foldl_update_first_undo [OF assms(2,3)])
qed

text \<open>
  C4 (as amended). Applying a delta and then its reverse delta returns the total balance
  to its value before the delta when adding the balance change to it needs no rounding.
  The total income and the total expenses are not taken back: unless the balance change is
  zero, each ends as the rounded sum of its value before the delta and the absolute value
  of the balance change. The transaction counter returns to its value when it was not
  negative, for a deletion at least 1, and its step needs no rounding. The category
  breakdown returns to its value when the affected categories are distinct, each already
  has an entry, and the additions to the entries of these categories need no rounding.
\<close>

theorem reverse_delta_round_trip:
  fixes d :: "'a delta_body_scheme"
  shows
  "(isDouble (totalBalance s) \<and> isDouble (totalBalance s + balanceChange (financialImpact d)) \<longrightarrow>
      totalBalance (applyDelta (applyDelta s d) (getReverseDelta d)) = totalBalance s)
   \<and> (balanceChange (financialImpact d) \<noteq> 0 \<longrightarrow>
      totalIncome (applyDelta (applyDelta s d) (getReverseDelta d)) =
        dadd (totalIncome s) \<bar>balanceChange (financialImpact d)\<bar>
      \<and> totalExpenses (applyDelta (applyDelta s d) (getReverseDelta d)) =
        dadd (totalExpenses s) \<bar>balanceChange (financialImpact d)\<bar>)
   \<and> (isDouble (transactionCount s) \<and> 0 \<le> transactionCount s
        \<and> (operation d = OpCreate \<longrightarrow> isDouble (transactionCount s + 1))
        \<and> (operation d = OpDelete \<longrightarrow>
              1 \<le> transactionCount s \<and> isDouble (transactionCount s - 1)) \<longrightarrow>
      transactionCount (applyDelta (applyDelta s d) (getReverseDelta d)) = transactionCount s)
   \<and> (set (affectedCategories (financialImpact d)) \<subseteq> ce_category ` set (categoryBreakdown s)
        \<and> distinct (affectedCategories (financialImpact d))
        \<and> (\<forall>e \<in> set (categoryBreakdown s).
              ce_category e \<in> set (affectedCategories (financialImpact d)) \<longrightarrow>
              isDouble (ce_amount e)
              \<and> isDouble (ce_amount e + balanceChange (financialImpact d))
              \<and> isDouble (ce_transactionCount e)
              \<and> isDouble (ce_transactionCount e + opStep (operation d))) \<longrightarrow>
      categoryBreakdown (applyDelta (applyDelta s d) (getReverseDelta d)) = categoryBreakdown s)"
proof -
  let ?c = "balanceChange (financialImpact d)"
  have bal: "totalBalance (applyDelta (applyDelta s d) (getReverseDelta d)) = totalBalance s"
    if "isDouble (totalBalance s) \<and> isDouble (totalBalance s + ?c)"
    using that by (simp add: applyDelta_totalBalance dadd_undo)
  have tot: "totalIncome (applyDelta (applyDelta s d) (getReverseDelta d)) =
        dadd (totalIncome s) \<bar>?c\<bar>
      \<and> totalExpenses (applyDelta (applyDelta s d) (getReverseDelta d)) =
        dadd (totalExpenses s) \<bar>?c\<bar>"
    if "?c \<noteq> 0"
    using that by (auto simp add: applyDelta_totalIncome applyDelta_totalExpenses)
  have cnt: "transactionCount (applyDelta (applyDelta s d) (getReverseDelta d)) = transactionCount s"
    if h: "isDouble (transactionCount s) \<and> 0 \<le> transactionCount s
        \<and> (operation d = OpCreate \<longrightarrow> isDouble (transactionCount s + 1))
        \<and> (operation d = OpDelete \<longrightarrow>
              1 \<le> transactionCount s \<and> isDouble (transactionCount s - 1))"
  proof (cases "operation d")
    case OpCreate
    with h have "dadd (transactionCount s) 1 = transactionCount s + 1" by (simp add: dadd_exact)
    with h OpCreate show ?thesis
      by (simp add: applyDelta_transactionCount reverseOp_def dsub_def isDouble_def)
  next
    case OpDelete
    with h have "dsub (transactionCount s) 1 = transactionCount s - 1"
      by (simp add: dsub_def isDouble_def)
    with h OpDelete show ?thesis
      by (simp add: applyDelta_transactionCount reverseOp_def dadd_def isDouble_def)
  next
    case OpUpdate
    then show ?thesis by (simp add: applyDelta_transactionCount reverseOp_def)
  next
    case OpRestore
    then show ?thesis by (simp add: applyDelta_transactionCount reverseOp_def)
  qed
  have cat: "categoryBreakdown (applyDelta (applyDelta s d) (getReverseDelta d)) = categoryBreakdown s"
    if "set (affectedCategories (financialImpact d)) \<subseteq> ce_category ` set (categoryBreakdown s)
        \<and> distinct (affectedCategories (financialImpact d))
        \<and> (\<forall>e \<in> set (categoryBreakdown s).
              ce_category e \<in> set (affectedCategories (financialImpact d)) \<longrightarrow>
              isDouble (ce_amount e)
              \<and> isDouble (ce_amount e + ?c)
              \<and> isDouble (ce_transactionCount e)
              \<and> isDouble (ce_transactionCount e + opStep (operation d)))"
    using that categories_round_trip [of "affectedCategories (financialImpact d)"
        "categoryBreakdown s" ?c "operation d"]
    by (simp add: applyDelta_categoryBreakdown)
  from bal tot cnt cat show ?thesis by blast
qed


section \<open>The example ledger, evaluated\<close>

lemma ex_sums:
  "dadd 0 (- 500) = - 500" "dadd (- 500) 500 = 0" "dadd 0 500 = 500" "dadd 500 500 = 1000"
  "dadd 0 1 = 1" "dadd 1 (- 1) = 0" "dadd 0 (- 1) = - 1" "dsub 1 1 = 0" "dsub 0 1 = - 1"
  "dadd 1 1 = 2"
  by code_simp+

lemma ex_doubles:
  "isDouble 1" "isDouble 500" "isDouble 1000"
  using isDouble_of_int [of 1] isDouble_of_int [of 500] isDouble_of_int [of 1000] by simp_all

lemma ex_impacts:
  "financialImpact ex_create_delta =
     \<lparr>balanceChange = - 500, affectedCategories = [''food''], affectedBudgets = [], affectedGoals = []\<rparr>"
  "financialImpact ex_delete_delta =
     \<lparr>balanceChange = 500, affectedCategories = [''food''], affectedBudgets = [], affectedGoals = []\<rparr>"
  by (simp_all add: ex_create_delta_def ex_delete_delta_def calculateFinancialImpact_def ex_expense_def)

lemma ex_kinds:
  "operation ex_create_delta = OpCreate" "operation ex_delete_delta = OpDelete"
  "entityType ex_create_delta = Expense" "entityType ex_delete_delta = Expense"
  "d_user ex_create_delta = ''u1''" "d_user ex_delete_delta = ''u1''"
  "d_timestamp ex_create_delta = 5" "d_timestamp ex_delete_delta = 15"
  by (simp_all add: ex_create_delta_def ex_delete_delta_def)


lemma ex_after_create:
  "applyDelta zeroState ex_create_delta = snap_state ex_snapshot"
  by (simp add: applyDelta_def Let_def ex_impacts ex_kinds zeroState_def applyCategory_def
      ex_snapshot_def ex_sums)






text \<open>
  C10 on the example: the 500 expense created and then deleted from the zero state. The
  deletion delta and the reverse of the creation delta have the balance change 500 and
  the same effect; the creation delta has the balance change -500.
\<close>

theorem applyDelta_classifies_by_sign_witness:
  "0 < es_amount ex_expense \<and> es_type ex_expense \<noteq> ''income''
   \<and> isDouble (totalIncome zeroState) \<and> isDouble (totalExpenses zeroState)
   \<and> isDouble (totalBalance zeroState) \<and> isDouble (totalBalance zeroState - es_amount ex_expense)
   \<and> isDouble (totalIncome zeroState + es_amount ex_expense)
   \<and> isDouble (totalExpenses zeroState + es_amount ex_expense)
   \<and> balanceChange (financialImpact ex_delete_delta) = 500
   \<and> balanceChange (financialImpact (getReverseDelta ex_create_delta)) = 500
   \<and> balanceChange (financialImpact ex_create_delta) = - 500
   \<and> totalIncome (applyDelta zeroState (getReverseDelta ex_create_delta)) =
       totalIncome (applyDelta zeroState ex_delete_delta)
   \<and> totalExpenses (applyDelta zeroState (getReverseDelta ex_create_delta)) =
       totalExpenses (applyDelta zeroState ex_delete_delta)
   \<and> totalIncome (applyDelta zeroState ex_delete_delta) = 500
   \<and> totalExpenses (applyDelta zeroState ex_delete_delta) = 0
   \<and> totalExpenses (applyDelta zeroState ex_create_delta) = 500
   \<and> totalIncome (applyDelta zeroState ex_create_delta) = 0
   \<and> totalIncome (applyDeltas zeroState [ex_create_delta, ex_delete_delta]) = 500
   \<and> totalExpenses (applyDeltas zeroState [ex_create_delta, ex_delete_delta]) = 500
   \<and> totalIncome zeroState < totalIncome (applyDeltas zeroState [ex_create_delta, ex_delete_delta])
   \<and> totalExpenses zeroState < totalExpenses (applyDeltas zeroState [ex_create_delta, ex_delete_delta])
   \<and> totalBalance (applyDeltas zeroState [ex_create_delta, ex_delete_delta]) = totalBalance zeroState"
proof -
  have h: "0 < es_amount ex_expense" "es_type ex_expense \<noteq> ''income''"
    "es_amount ex_expense = 500"
        "operation ex_create_delta = OpCreate"
        "financialImpact ex_create_delta = calculateFinancialImpact Expense OpCreate None (Some ex_expense)"
        "operation ex_delete_delta = OpDelete"
        "financialImpact ex_delete_delta = calculateFinancialImpact Expense OpDelete (Some ex_expense) None"
    by (simp_all add: ex_expense_def ex_create_delta_def ex_delete_delta_def)
  have z: "totalIncome zeroState = 0" "totalExpenses zeroState = 0" "totalBalance zeroState = 0"
    by (simp_all add: zeroState_def)
  have bc: "balanceChange (financialImpact ex_delete_delta) = 500"
    "balanceChange (financialImpact (getReverseDelta ex_create_delta)) = 500"
    "balanceChange (financialImpact ex_create_delta) = - 500"
    by (simp_all add: ex_impacts)
  note pos = applyDelta_classifies_by_sign [where d = ex_delete_delta and s = zeroState
      and ds = "[ex_create_delta, ex_delete_delta]" and e = ex_expense
      and c = ex_create_delta and r = ex_delete_delta
      and d' = "getReverseDelta ex_create_delta"]
  note neg = applyDelta_classifies_by_sign [where d = ex_create_delta and s = zeroState
      and ds = "[ex_create_delta, ex_delete_delta]" and e = ex_expense
      and c = ex_create_delta and r = ex_delete_delta
      and d' = ex_create_delta]
  from pos neg h z bc ex_doubles ex_sums
  show ?thesis by simp
qed

text \<open>
  C10 as stated does not hold in floating-point arithmetic. With a balance of \<^verbatim>\<open>0.01\<close>,
  creating and deleting an expense of \<^verbatim>\<open>0.03\<close> leaves the balance at
  \<^verbatim>\<open>0.010000000000000002\<close>; with income and expense totals of \<^verbatim>\<open>1e16\<close>, creating and
  deleting an expense of 1 leaves both totals at \<^verbatim>\<open>1e16\<close>.
\<close>

theorem applyDelta_classifies_by_sign_counterexample:
  "isDouble js_0_01 \<and> isDouble js_0_03 \<and> 0 < js_0_03
   \<and> totalBalance (ex_state js_0_01 0 0) = js_0_01
   \<and> totalBalance (applyDeltas (ex_state js_0_01 0 0)
        [ex_created Expense (ex_entity ''expense'' js_0_03),
         ex_deleted Expense (ex_entity ''expense'' js_0_03)])
       = 1441151880758559 / 144115188075855872
   \<and> js_0_01 < 1441151880758559 / 144115188075855872
   \<and> totalIncome (ex_state 0 10000000000000000 10000000000000000) = 10000000000000000
   \<and> totalIncome (applyDeltas (ex_state 0 10000000000000000 10000000000000000)
        [ex_created Expense (ex_entity ''expense'' 1), ex_deleted Expense (ex_entity ''expense'' 1)])
       = 10000000000000000
   \<and> totalExpenses (ex_state 0 10000000000000000 10000000000000000) = 10000000000000000
   \<and> totalExpenses (applyDeltas (ex_state 0 10000000000000000 10000000000000000)
        [ex_created Expense (ex_entity ''expense'' 1), ex_deleted Expense (ex_entity ''expense'' 1)])
       = 10000000000000000"
proof -
  have n: "isDouble js_0_01" "isDouble js_0_03"
    "dadd (dadd js_0_01 (- js_0_03)) js_0_03 = 1441151880758559 / 144115188075855872"
    "dadd 10000000000000000 1 = 10000000000000000"
    by code_simp+
  have c: "0 < js_0_03" "js_0_01 < 1441151880758559 / 144115188075855872" "js_0_03 \<noteq> 0"
    by (simp_all add: js_0_01_def js_0_03_def)
  have bc: "balanceChange (financialImpact (ex_created Expense (ex_entity ''expense'' a))) = - a"
    "balanceChange (financialImpact (ex_deleted Expense (ex_entity ''expense'' a))) = a" for a
    by (simp_all add: ex_created_def ex_deleted_def ex_entity_def calculateFinancialImpact_def)
  have s: "totalBalance (ex_state b i x) = b" "totalIncome (ex_state b i x) = i"
    "totalExpenses (ex_state b i x) = x" for b i x
    by (simp_all add: ex_state_def)
  show ?thesis
    using c
    by (simp add: applyDeltas_def applyDelta_totalBalance applyDelta_totalIncome
        applyDelta_totalExpenses bc s n)
qed

text \<open>
  C4 as amended, on the deletion delta applied to the state that holds the expense: the
  balance, the counter and the breakdown come back, income and expenses have grown by 500.
\<close>

theorem reverse_delta_round_trip_witness:
  "isDouble (totalBalance (snap_state ex_snapshot))
   \<and> isDouble (totalBalance (snap_state ex_snapshot) + balanceChange (financialImpact ex_delete_delta))
   \<and> balanceChange (financialImpact ex_delete_delta) \<noteq> 0
   \<and> isDouble (transactionCount (snap_state ex_snapshot))
   \<and> 1 \<le> transactionCount (snap_state ex_snapshot)
   \<and> operation ex_delete_delta = OpDelete
   \<and> isDouble (transactionCount (snap_state ex_snapshot) - 1)
   \<and> set (affectedCategories (financialImpact ex_delete_delta))
        \<subseteq> ce_category ` set (categoryBreakdown (snap_state ex_snapshot))
   \<and> distinct (affectedCategories (financialImpact ex_delete_delta))
   \<and> list_all (\<lambda>e. isDouble (ce_amount e)
              \<and> isDouble (ce_amount e + balanceChange (financialImpact ex_delete_delta))
              \<and> isDouble (ce_transactionCount e)
              \<and> isDouble (ce_transactionCount e + opStep (operation ex_delete_delta)))
        (categoryBreakdown (snap_state ex_snapshot))
   \<and> totalBalance (applyDelta (applyDelta (snap_state ex_snapshot) ex_delete_delta)
        (getReverseDelta ex_delete_delta)) = - 500
   \<and> totalIncome (applyDelta (applyDelta (snap_state ex_snapshot) ex_delete_delta)
        (getReverseDelta ex_delete_delta)) = 500
   \<and> totalExpenses (applyDelta (applyDelta (snap_state ex_snapshot) ex_delete_delta)
        (getReverseDelta ex_delete_delta)) = 1000
   \<and> transactionCount (applyDelta (applyDelta (snap_state ex_snapshot) ex_delete_delta)
        (getReverseDelta ex_delete_delta)) = 1
   \<and> categoryBreakdown (applyDelta (applyDelta (snap_state ex_snapshot) ex_delete_delta)
        (getReverseDelta ex_delete_delta)) =
       [\<lparr>ce_category = ''food'', ce_amount = - 500, ce_transactionCount = 1\<rparr>]"
proof -
  have s: "transactionCount (snap_state ex_snapshot) = 1"
    "totalBalance (snap_state ex_snapshot) = - 500"
    "totalIncome (snap_state ex_snapshot) = 0"
    "totalExpenses (snap_state ex_snapshot) = 500"
    "categoryBreakdown (snap_state ex_snapshot) =
       [\<lparr>ce_category = ''food'', ce_amount = - 500, ce_transactionCount = 1\<rparr>]"
    by (simp_all add: ex_snapshot_def)
  from reverse_delta_round_trip [of "snap_state ex_snapshot" ex_delete_delta]
  show ?thesis by (simp add: s ex_impacts ex_kinds ex_doubles ex_sums opStep_def)
qed

text \<open>
  C4 as stated does not hold. From the zero state, the creation delta of the example
  followed by its reverse delta leaves income and expenses at 500 and a food entry in the
  breakdown; the deletion delta followed by its reverse delta leaves the counter at 1.
  With a balance of \<^verbatim>\<open>0.1\<close>, the creation delta of an income of \<^verbatim>\<open>0.2\<close> followed by its
  reverse delta leaves the balance at \<^verbatim>\<open>0.10000000000000003\<close>.
\<close>

theorem reverse_delta_round_trip_counterexample:
  "applyDelta (applyDelta zeroState ex_create_delta) (getReverseDelta ex_create_delta) \<noteq> zeroState
   \<and> totalBalance (applyDelta (applyDelta zeroState ex_create_delta) (getReverseDelta ex_create_delta)) = 0
   \<and> totalIncome (applyDelta (applyDelta zeroState ex_create_delta) (getReverseDelta ex_create_delta)) = 500
   \<and> totalIncome zeroState = 0
   \<and> totalExpenses (applyDelta (applyDelta zeroState ex_create_delta) (getReverseDelta ex_create_delta)) = 500
   \<and> totalExpenses zeroState = 0
   \<and> categoryBreakdown (applyDelta (applyDelta zeroState ex_create_delta) (getReverseDelta ex_create_delta))
       = [\<lparr>ce_category = ''food'', ce_amount = 0, ce_transactionCount = 0\<rparr>]
   \<and> categoryBreakdown zeroState = []
   \<and> transactionCount (applyDelta (applyDelta zeroState ex_delete_delta) (getReverseDelta ex_delete_delta)) = 1
   \<and> transactionCount zeroState = 0
   \<and> isDouble js_0_1 \<and> isDouble js_0_2
   \<and> totalBalance (ex_state js_0_1 0 0) = js_0_1
   \<and> totalBalance (applyDelta (applyDelta (ex_state js_0_1 0 0)
          (ex_created Expense (ex_entity ''income'' js_0_2)))
        (getReverseDelta (ex_created Expense (ex_entity ''income'' js_0_2))))
       = 1801439850948199 / 18014398509481984
   \<and> js_0_1 < 1801439850948199 / 18014398509481984"
proof -
  have r: "applyDelta (snap_state ex_snapshot) (getReverseDelta ex_create_delta) =
     \<lparr>totalBalance = 0, totalIncome = 500, totalExpenses = 500,
      categoryBreakdown = [\<lparr>ce_category = ''food'', ce_amount = 0, ce_transactionCount = 0\<rparr>],
      budgets = [], goals = [], accounts = [], transactionCount = 0, currency = ''INR'',
      state_transactions = None\<rparr>"
    by (simp add: applyDelta_def Let_def getReverseDelta_def ex_impacts ex_kinds applyCategory_def
        ex_snapshot_def ex_sums)
  have z: "totalIncome zeroState = 0" "totalExpenses zeroState = 0" "categoryBreakdown zeroState = []"
    "transactionCount zeroState = 0"
    by (simp_all add: zeroState_def)
  have c: "transactionCount (applyDelta (applyDelta zeroState ex_delete_delta) (getReverseDelta ex_delete_delta)) = 1"
    by (simp add: applyDelta_transactionCount ex_kinds z reverseOp_def ex_sums)
  have n: "isDouble js_0_1" "isDouble js_0_2"
    "dadd (dadd js_0_1 js_0_2) (- js_0_2) = 1801439850948199 / 18014398509481984"
    by code_simp+
  have o: "js_0_1 < 1801439850948199 / 18014398509481984" "js_0_2 \<noteq> 0"
    by (simp_all add: js_0_1_def js_0_2_def)
  have bc: "balanceChange (financialImpact (ex_created Expense (ex_entity ''income'' a))) = a" for a
    by (simp add: ex_created_def ex_entity_def calculateFinancialImpact_def)
  have b: "totalBalance (ex_state js_0_1 0 0) = js_0_1"
    by (simp add: ex_state_def)
  have f: "totalBalance (applyDelta (applyDelta (ex_state js_0_1 0 0)
          (ex_created Expense (ex_entity ''income'' js_0_2)))
        (getReverseDelta (ex_created Expense (ex_entity ''income'' js_0_2))))
       = 1801439850948199 / 18014398509481984"
    using o by (simp add: applyDelta_totalBalance bc b n)
  have first: "applyDelta (applyDelta zeroState ex_create_delta) (getReverseDelta ex_create_delta) \<noteq> zeroState
   \<and> totalBalance (applyDelta (applyDelta zeroState ex_create_delta) (getReverseDelta ex_create_delta)) = 0
   \<and> totalIncome (applyDelta (applyDelta zeroState ex_create_delta) (getReverseDelta ex_create_delta)) = 500
   \<and> totalIncome zeroState = 0
   \<and> totalExpenses (applyDelta (applyDelta zeroState ex_create_delta) (getReverseDelta ex_create_delta)) = 500
   \<and> totalExpenses zeroState = 0
   \<and> categoryBreakdown (applyDelta (applyDelta zeroState ex_create_delta) (getReverseDelta ex_create_delta))
       = [\<lparr>ce_category = ''food'', ce_amount = 0, ce_transactionCount = 0\<rparr>]
   \<and> categoryBreakdown zeroState = []"
    by (simp add: ex_after_create r z) (simp add: zeroState_def)
  from first c z(4) n(1,2) b f o(1) show ?thesis by blast
qed

section \<open>State evolution\<close>

text \<open>
  C9 (as amended). With the daily interval, when the start date and the dates one, two
  and three daily steps of the platform's date arithmetic after it are at or before the
  end date and the date four steps after it is later than the end date,
  \<^verbatim>\<open>getStateEvolution\<close> returns, and returns exactly four samples, dated at the start and
  one, two and three steps later; balance, income and expenses of each sample are those of
  \<^verbatim>\<open>replayToDate\<close> at the sample's date.
\<close>

theorem getStateEvolution_three_days:
  assumes "start \<le> endDate"
    and "addDays 1 start \<le> endDate"
    and "addDays 1 (addDays 1 start) \<le> endDate"
    and "addDays 1 (addDays 1 (addDays 1 start)) \<le> endDate"
    and "endDate < addDays 1 (addDays 1 (addDays 1 (addDays 1 start)))"
  shows "getStateEvolution db addDays addMonth uid start endDate ''daily'' =
     Some (map (\<lambda>t. \<lparr>ev_date = t,
                      ev_balance = totalBalance (r_state (replayToDate db uid t False False)),
                      ev_income = totalIncome (r_state (replayToDate db uid t False False)),
                      ev_expenses = totalExpenses (r_state (replayToDate db uid t False False))\<rparr>)
             [start, addDays 1 start, addDays 1 (addDays 1 start),
              addDays 1 (addDays 1 (addDays 1 start))])"
proof -
  from assms(5) have last: "\<not> addDays 1 (addDays 1 (addDays 1 (addDays 1 start))) \<le> endDate"
    by simp
  show ?thesis
    by (simp add: getStateEvolution_def evolutionLoop.simps advance_def sampleAt_def Let_def
        assms(1-4) last)
qed

text \<open>
  C9 in a process running in UTC, where a daily step is 24 hours: on the example ledger,
  from time 0 and from 2024-11-02 12:00 UTC to the instant 72 hours later.
\<close>

theorem getStateEvolution_three_days_witness:
  "utcAddDays 1 (utcAddDays 1 (utcAddDays 1 0)) = 3 * dayMs
   \<and> 3 * dayMs < utcAddDays 1 (utcAddDays 1 (utcAddDays 1 (utcAddDays 1 0)))
   \<and> map_option length
        (getStateEvolution ex_ledger utcAddDays (\<lambda>t. t) ''u1'' 0 (3 * dayMs) ''daily'') = Some 4
   \<and> map_option (map ev_date)
        (getStateEvolution ex_ledger utcAddDays (\<lambda>t. t) ''u1'' 0 (3 * dayMs) ''daily'')
       = Some [0, 86400000, 172800000, 259200000]
   \<and> map_option (map ev_date)
        (getStateEvolution ex_ledger utcAddDays (\<lambda>t. t) ''u1'' ex_start (ex_start + 3 * dayMs) ''daily'')
       = Some [1730548800000, 1730635200000, 1730721600000, 1730808000000]"
proof -
  note zero = getStateEvolution_three_days [where addDays = utcAddDays and db = ex_ledger
      and addMonth = "\<lambda>t. t" and uid = "''u1''" and start = 0 and endDate = "3 * dayMs"]
  note nov = getStateEvolution_three_days [where addDays = utcAddDays and db = ex_ledger
      and addMonth = "\<lambda>t. t" and uid = "''u1''" and start = ex_start
      and endDate = "ex_start + 3 * dayMs"]
  from zero nov show ?thesis
    by (simp add: utcAddDays_def dayMs_def ex_start_def)
qed

text \<open>
  C9 as stated does not hold. In a process in the time zone America/New_York the daily
  step from 2024-11-02 12:00 UTC leads to the same local time on the next day, 25 hours
  later, because the night in between has the hour from 1:00 to 2:00 twice; the fourth
  sample would be dated 73 hours after the start, after the end date 72 hours after the
  start, and the result has three samples.
\<close>

theorem getStateEvolution_three_days_counterexample:
  "fallBackAddDays ex_change 1 ex_start = ex_start + 25 * hourMs
   \<and> map_option (map ev_date)
        (getStateEvolution ex_ledger (fallBackAddDays ex_change) (\<lambda>t. t) ''u1''
           ex_start (ex_start + 3 * dayMs) ''daily'')
       = Some [ex_start, ex_start + 25 * hourMs, ex_start + 49 * hourMs]
   \<and> ex_start + 3 * dayMs < ex_start + 73 * hourMs
   \<and> map_option length
        (getStateEvolution ex_ledger (fallBackAddDays ex_change) (\<lambda>t. t) ''u1''
           ex_start (ex_start + 3 * dayMs) ''daily'')
       = Some 3"
  by (simp add: getStateEvolution_def evolutionLoop.simps advance_def sampleAt_def Let_def
      fallBackAddDays_def ex_change_def ex_start_def dayMs_def hourMs_def)

end
